theory Spec2Isabelle
  imports Complex_Main "HOL-Library.Word"
begin

unbundle bit_operations_syntax

section \<open>JavaScript numbers\<close>

text \<open>
  The source computes with JavaScript numbers: the values of IEEE 754 binary64, that is
  the doubles, the two infinities and \<open>NaN\<close>. A finite value is the rational number it
  denotes. The negative zero is not told from the zero (the one zero behaves as \<open>+0\<close>);
  in the three functions of \<open>GeometryMath\<close> a divisor is an argument or a difference of
  two arguments, which is never a negative zero unless an argument is.
\<close>

datatype jsnum = Num rat | PosInf | NegInf | NaN

text \<open>
  Rounding to the nearest double, ties to even, as every arithmetic operation of the
  language does with its exact result. A double has 53 significant bits: a number \<open>x\<close> with
  \<open>2 ^ e \<le> \<bar>x\<bar> < 2 ^ (e + 1)\<close> is rounded to a multiple of \<open>2 ^ (e - 52)\<close>. The least such
  \<open>e\<close> is \<open>-1022\<close> (below \<open>2 ^ -1022\<close> the doubles are the multiples of \<open>2 ^ -1074\<close>), the
  greatest is 1023, and a result that reaches \<open>2 ^ 1024\<close> is an infinity.

  \<open>scale_up x k\<close> counts up from \<open>k\<close> to the exponent of \<open>x\<close> when \<open>1 \<le> \<bar>x\<bar>\<close> (at most
  1024); \<open>scale_down x k\<close> counts up from \<open>k\<close> to the negated exponent when \<open>\<bar>x\<bar> < 1\<close> (at most
  1022); \<open>binade x\<close> is the power of two so found.
\<close>

function scale_up :: "rat \<Rightarrow> nat \<Rightarrow> nat" where
  "scale_up x k = (if k < 1024 \<and> 2 ^ (k + 1) \<le> \<bar>x\<bar> then scale_up x (k + 1) else k)"
  by pat_completeness auto
termination
  by (relation "measure (\<lambda>(x, k). 1024 - k)") auto

function scale_down :: "rat \<Rightarrow> nat \<Rightarrow> nat" where
  "scale_down x k = (if k < 1022 \<and> \<bar>x\<bar> < 1 / 2 ^ k then scale_down x (k + 1) else k)"
  by pat_completeness auto
termination
  by (relation "measure (\<lambda>(x, k). 1022 - k)") auto

declare scale_up.simps [simp del] scale_down.simps [simp del]

definition binade :: "rat \<Rightarrow> rat" where
  "binade x = (if 1 \<le> \<bar>x\<bar> then 2 ^ scale_up x 0 else 1 / 2 ^ scale_down x 0)"

text \<open>The integer nearest to \<open>y\<close>; the even one of the two when \<open>y\<close> is half-way.\<close>

definition roundTiesToEven :: "rat \<Rightarrow> int" where
  "roundTiesToEven y =
     (let f = \<lfloor>y\<rfloor>; d = y - of_int f
      in if d < 1 / 2 then f else if 1 / 2 < d then f + 1 else if even f then f else f + 1)"

definition toDouble :: "rat \<Rightarrow> jsnum" where
  "toDouble x =
     (if x = 0 then Num 0
      else (let ulp = binade x / 2 ^ 52;
                r = of_int (roundTiesToEven (x / ulp)) * ulp
            in if 2 ^ 1024 \<le> r then PosInf
               else if r \<le> - (2 ^ 1024) then NegInf
               else Num r))"

text \<open>The infinity with the sign of \<open>s\<close>; \<open>NaN\<close> where the sign is that of zero.\<close>

definition inf_of_sign :: "rat \<Rightarrow> jsnum" where
  "inf_of_sign s = (if 0 < s then PosInf else if s < 0 then NegInf else NaN)"

fun js_neg :: "jsnum \<Rightarrow> jsnum" where
  "js_neg (Num a) = Num (- a)"
| "js_neg PosInf = NegInf"
| "js_neg NegInf = PosInf"
| "js_neg NaN = NaN"

fun js_add :: "jsnum \<Rightarrow> jsnum \<Rightarrow> jsnum" where
  "js_add (Num a) (Num b) = toDouble (a + b)"
| "js_add NaN y = NaN"
| "js_add x NaN = NaN"
| "js_add PosInf NegInf = NaN"
| "js_add NegInf PosInf = NaN"
| "js_add PosInf y = PosInf"
| "js_add NegInf y = NegInf"
| "js_add (Num a) PosInf = PosInf"
| "js_add (Num a) NegInf = NegInf"

definition js_sub :: "jsnum \<Rightarrow> jsnum \<Rightarrow> jsnum" where
  "js_sub x y = js_add x (js_neg y)"

fun js_mul :: "jsnum \<Rightarrow> jsnum \<Rightarrow> jsnum" where
  "js_mul (Num a) (Num b) = toDouble (a * b)"
| "js_mul NaN y = NaN"
| "js_mul x NaN = NaN"
| "js_mul PosInf (Num b) = inf_of_sign b"
| "js_mul NegInf (Num b) = inf_of_sign (- b)"
| "js_mul (Num a) PosInf = inf_of_sign a"
| "js_mul (Num a) NegInf = inf_of_sign (- a)"
| "js_mul PosInf PosInf = PosInf"
| "js_mul PosInf NegInf = NegInf"
| "js_mul NegInf PosInf = NegInf"
| "js_mul NegInf NegInf = PosInf"

fun js_div :: "jsnum \<Rightarrow> jsnum \<Rightarrow> jsnum" where
  "js_div (Num a) (Num b) = (if b = 0 then inf_of_sign a else toDouble (a / b))"
| "js_div NaN y = NaN"
| "js_div x NaN = NaN"
| "js_div (Num a) PosInf = Num 0"
| "js_div (Num a) NegInf = Num 0"
| "js_div PosInf (Num b) = (if b < 0 then NegInf else PosInf)"
| "js_div NegInf (Num b) = (if b < 0 then PosInf else NegInf)"
| "js_div PosInf y = NaN"
| "js_div NegInf y = NaN"

text \<open>
  \<open>Math.ceil\<close> and \<open>Math.max\<close> (of two arguments). Neither rounds: the ceiling of a double
  is a double.
\<close>

fun Math_ceil :: "jsnum \<Rightarrow> jsnum" where
  "Math_ceil (Num a) = Num (of_int \<lceil>a\<rceil>)"
| "Math_ceil x = x"

fun Math_max :: "jsnum \<Rightarrow> jsnum \<Rightarrow> jsnum" where
  "Math_max (Num a) (Num b) = Num (max a b)"
| "Math_max NaN y = NaN"
| "Math_max x NaN = NaN"
| "Math_max PosInf y = PosInf"
| "Math_max x PosInf = PosInf"
| "Math_max NegInf y = y"
| "Math_max x NegInf = x"

text \<open>Truthiness of a number: \<open>0\<close> and \<open>NaN\<close> are falsy, the infinities are truthy.\<close>

fun truthy :: "jsnum \<Rightarrow> bool" where
  "truthy (Num a) = (a \<noteq> 0)"
| "truthy NaN = False"
| "truthy PosInf = True"
| "truthy NegInf = True"

text \<open>\<open>x || y\<close> and \<open>x && y\<close> on numbers (the operands here have no effects).\<close>

definition js_or :: "jsnum \<Rightarrow> jsnum \<Rightarrow> jsnum" where
  "js_or x y = (if truthy x then x else y)"

definition js_and :: "jsnum \<Rightarrow> jsnum \<Rightarrow> jsnum" where
  "js_and x y = (if truthy x then y else x)"

text \<open>\<open>x < y\<close> and \<open>x === y\<close> on numbers: every comparison with \<open>NaN\<close> is false.\<close>

fun js_lt :: "jsnum \<Rightarrow> jsnum \<Rightarrow> bool" where
  "js_lt (Num a) (Num b) = (a < b)"
| "js_lt NaN y = False"
| "js_lt x NaN = False"
| "js_lt x NegInf = False"
| "js_lt PosInf y = False"
| "js_lt NegInf y = True"
| "js_lt x PosInf = True"

definition js_gt :: "jsnum \<Rightarrow> jsnum \<Rightarrow> bool" where
  "js_gt x y = js_lt y x"

definition strict_eq :: "jsnum \<Rightarrow> jsnum \<Rightarrow> bool" where
  "strict_eq x y = (x \<noteq> NaN \<and> y \<noteq> NaN \<and> x = y)"

section \<open>GeometryMath: the three static functions\<close>

text \<open>
  \<^verbatim>\<open>static computeThumbSize(trackSize, scrollableSize, viewportSize, minimalSize) {
    const size = Math.ceil((viewportSize / scrollableSize) * trackSize) || 0;
    return trackSize === size ? 0 : Math.max(size, minimalSize);
  }\<close>
\<close>

definition computeThumbSize :: "jsnum \<Rightarrow> jsnum \<Rightarrow> jsnum \<Rightarrow> jsnum \<Rightarrow> jsnum" where
  "computeThumbSize trackSize scrollableSize viewportSize minimalSize =
     (let size = js_or (Math_ceil (js_mul (js_div viewportSize scrollableSize) trackSize)) (Num 0)
      in if strict_eq trackSize size then Num 0 else Math_max size minimalSize)"

text \<open>
  \<^verbatim>\<open>static computeThumbOffset(trackSize, thumbSize, scrollableSize, viewportSize, scrollValue) {
    return (thumbSize && (scrollValue / (scrollableSize - viewportSize)) * (trackSize - thumbSize)) || 0;
  }\<close>
\<close>

definition computeThumbOffset :: "jsnum \<Rightarrow> jsnum \<Rightarrow> jsnum \<Rightarrow> jsnum \<Rightarrow> jsnum \<Rightarrow> jsnum" where
  "computeThumbOffset trackSize thumbSize scrollableSize viewportSize scrollValue =
     js_or (js_and thumbSize
              (js_mul (js_div scrollValue (js_sub scrollableSize viewportSize))
                      (js_sub trackSize thumbSize)))
           (Num 0)"

text \<open>
  \<^verbatim>\<open>static computeScrollForOffset(trackSize, thumbSize, offset, scrollableSize, viewportSize) {
    return ((offset - thumbSize / 2) / (trackSize - thumbSize)) * (scrollableSize - viewportSize) || 0;
  }\<close>
\<close>

definition computeScrollForOffset :: "jsnum \<Rightarrow> jsnum \<Rightarrow> jsnum \<Rightarrow> jsnum \<Rightarrow> jsnum \<Rightarrow> jsnum" where
  "computeScrollForOffset trackSize thumbSize offset scrollableSize viewportSize =
     js_or (js_mul (js_div (js_sub offset (js_div thumbSize (Num 2)))
                           (js_sub trackSize thumbSize))
                   (js_sub scrollableSize viewportSize))
           (Num 0)"

section \<open>The component: data\<close>

text \<open>
  \<open>null\<close> (and \<open>undefined\<close>) is \<open>None\<close>. In arithmetic \<open>null\<close> converts to \<open>0\<close>, in a
  condition it is falsy, and \<open>!==\<close> tells it from every number and every boolean.
\<close>

fun ToNumber :: "jsnum option \<Rightarrow> jsnum" where
  "ToNumber None = Num 0"
| "ToNumber (Some x) = x"

fun ToBoolean :: "bool option \<Rightarrow> bool" where
  "ToBoolean None = False"
| "ToBoolean (Some b) = b"

fun strict_neq :: "jsnum option \<Rightarrow> jsnum option \<Rightarrow> bool" where
  "strict_neq None None = False"
| "strict_neq (Some x) (Some y) = (\<not> strict_eq x y)"
| "strict_neq None (Some y) = True"
| "strict_neq (Some x) None = True"

text \<open>The typedef \<open>ScrollValues\<close>: every field is \<open>null\<close> until the first committed pass.\<close>

record ScrollValues =
  sv_clientHeight :: "jsnum option"
  sv_clientWidth :: "jsnum option"
  sv_scrollHeight :: "jsnum option"
  sv_scrollWidth :: "jsnum option"
  sv_scrollTop :: "jsnum option"
  sv_scrollLeft :: "jsnum option"
  sv_scrollYBlocked :: "bool option"
  sv_scrollXBlocked :: "bool option"
  sv_scrollYPossible :: "bool option"
  sv_scrollXPossible :: "bool option"
  sv_trackYVisible :: "bool option"
  sv_trackXVisible :: "bool option"
  sv_isRtl :: "bool option"

datatype axis = TYPE_X | TYPE_Y

datatype behavior = Jump | Step | OtherBehavior

text \<open>
  The props the modelled methods read. A callback prop is a boolean: whether the
  callback is configured; its calls are recorded as effects.
\<close>

record props =
  minimalThumbsSize :: jsnum
  trackClickBehavior :: behavior
  rtl :: "bool option"
  scrollDetectionThreshold :: nat
  translateContentSizesToHolder :: bool
  noScrollX :: bool
  noScrollY :: bool
  noScroll :: bool
  permanentTrackX :: bool
  permanentTrackY :: bool
  permanentTracks :: bool
  onScroll :: bool
  onScrollStart :: bool
  onScrollStop :: bool
  trackXProps_onClick :: bool
  trackYProps_onClick :: bool
  thumbXProps_onDrag :: bool
  thumbYProps_onDrag :: bool

record state =
  st_trackYVisible :: bool
  st_trackXVisible :: bool
  st_isRtl :: "bool option"

text \<open>
  The elements behind the refs. The viewport (\<open>contentEl\<close>) is a plain object: an
  assignment to \<open>scrollTop\<close> or \<open>scrollLeft\<close> stores the assigned value (what the host does
  with it is not in the source). \<open>el_direction_rtl\<close> is
  \<open>getComputedStyle(contentEl).direction === "rtl"\<close>; \<open>tr_innerWidth\<close> and \<open>tr_innerHeight\<close>
  are what \<open>getInnerWidth\<close> and \<open>getInnerHeight\<close> (imported, not in the source file) return
  for a track.
\<close>

record viewport =
  el_clientHeight :: jsnum
  el_scrollHeight :: jsnum
  el_scrollTop :: jsnum
  el_clientWidth :: jsnum
  el_scrollWidth :: jsnum
  el_scrollLeft :: jsnum
  el_direction_rtl :: bool

text \<open>
  Style values: \<open>TranslateY v\<close> is the string \<open>translateY(${v}px)\<close>, \<open>Px v\<close> is \<open>v + "px"\<close>,
  \<open>DisplayNone\<close> is \<open>"none"\<close>, and \<open>None\<close> is \<open>null\<close>.
\<close>

datatype transform = TranslateX jsnum | TranslateY jsnum

datatype css_length = Px jsnum

datatype display = DisplayNone

record thumb =
  th_clientWidth :: jsnum
  th_clientHeight :: jsnum
  th_transform :: "transform option"
  th_width :: "css_length option"
  th_height :: "css_length option"
  th_display :: "display option"

record track =
  tr_innerWidth :: jsnum
  tr_innerHeight :: jsnum
  tr_display :: "display option"

record holder =
  ho_width :: "css_length option"
  ho_height :: "css_length option"

text \<open>
  What the component asks of its surroundings, in order: a \<open>setState\<close> request (React
  applies it when it chooses to) and the calls of the configured callbacks.
\<close>

datatype effect =
    SetState_isRtl bool
  | SetState_tracks "bool option" "bool option"
  | OnScroll ScrollValues ScrollValues
  | OnScrollStart ScrollValues
  | OnScrollStop ScrollValues
  | OnTrackClick axis jsnum
  | OnThumbDrag axis jsnum

datatype error = TypeError

text \<open>
  The instance. \<open>timeout\<close> is \<open>this.scrollDetect.timeout\<close>: a timer handle, or \<open>null\<close>
  (\<open>undefined\<close> before the first signal).
\<close>

record component =
  props :: props
  state :: state
  scrollValues :: ScrollValues
  contentEl :: "viewport option"
  trackYEl :: "track option"
  trackXEl :: "track option"
  thumbYEl :: "thumb option"
  thumbXEl :: "thumb option"
  holderEl :: "holder option"
  wrapperEl :: bool
  timeout :: "nat option"
  effects :: "effect list"

section \<open>The synchronization pass\<close>

text \<open>Lines 452 to 476 of \<open>update\<close>: the fresh sample \<open>currentScrollValues\<close>.\<close>

definition sample :: "props \<Rightarrow> bool \<Rightarrow> viewport \<Rightarrow> ScrollValues" where
  "sample p isRtl el =
     (let scrollXBlocked = (noScroll p \<or> noScrollX p);
          scrollYBlocked = (noScroll p \<or> noScrollY p);
          scrollXPossible = (\<not> scrollXBlocked \<and> js_gt (el_scrollWidth el) (el_clientWidth el));
          scrollYPossible = (\<not> scrollYBlocked \<and> js_gt (el_scrollHeight el) (el_clientHeight el));
          trackXVisible = (scrollXPossible \<or> permanentTracks p \<or> permanentTrackX p);
          trackYVisible = (scrollYPossible \<or> permanentTracks p \<or> permanentTrackY p)
      in \<lparr> sv_clientHeight = Some (el_clientHeight el),
           sv_clientWidth = Some (el_clientWidth el),
           sv_scrollHeight = Some (el_scrollHeight el),
           sv_scrollWidth = Some (el_scrollWidth el),
           sv_scrollTop = Some (el_scrollTop el),
           sv_scrollLeft = Some (el_scrollLeft el),
           sv_scrollYBlocked = Some scrollYBlocked,
           sv_scrollXBlocked = Some scrollXBlocked,
           sv_scrollYPossible = Some scrollYPossible,
           sv_scrollXPossible = Some scrollXPossible,
           sv_trackYVisible = Some trackYVisible,
           sv_trackXVisible = Some trackXVisible,
           sv_isRtl = Some isRtl \<rparr>)"

text \<open>
  Lines 478 to 492: \<open>cond && (mask |= 1 << k)\<close>, on 32-bit integers, one line per field
  (the variable is \<open>msk\<close> here).
\<close>

definition setBitIf :: "bool \<Rightarrow> nat \<Rightarrow> 32 word \<Rightarrow> 32 word" where
  "setBitIf cond k msk = (if cond then msk OR push_bit k 1 else msk)"

definition changeMask :: "ScrollValues \<Rightarrow> ScrollValues \<Rightarrow> 32 word" where
  "changeMask old cur =
     (setBitIf (sv_isRtl old \<noteq> sv_isRtl cur) 12
     (setBitIf (sv_trackXVisible old \<noteq> sv_trackXVisible cur) 11
     (setBitIf (sv_trackYVisible old \<noteq> sv_trackYVisible cur) 10
     (setBitIf (sv_scrollXPossible old \<noteq> sv_scrollXPossible cur) 9
     (setBitIf (sv_scrollYPossible old \<noteq> sv_scrollYPossible cur) 8
     (setBitIf (sv_scrollXBlocked old \<noteq> sv_scrollXBlocked cur) 7
     (setBitIf (sv_scrollYBlocked old \<noteq> sv_scrollYBlocked cur) 6
     (setBitIf (strict_neq (sv_scrollLeft old) (sv_scrollLeft cur)) 5
     (setBitIf (strict_neq (sv_scrollTop old) (sv_scrollTop cur)) 4
     (setBitIf (strict_neq (sv_scrollWidth old) (sv_scrollWidth cur)) 3
     (setBitIf (strict_neq (sv_scrollHeight old) (sv_scrollHeight cur)) 2
     (setBitIf (strict_neq (sv_clientWidth old) (sv_clientWidth cur)) 1
     (setBitIf (strict_neq (sv_clientHeight old) (sv_clientHeight cur)) 0
      0)))))))))))))"

text \<open>The test \<open>mask & (1 << k)\<close> read as a condition.\<close>

definition maskBit :: "32 word \<Rightarrow> nat \<Rightarrow> bool" where
  "maskBit msk k = (msk AND push_bit k 1 \<noteq> 0)"

text \<open>
  The conditions of lines 519 and 551: a bit of the vertical (horizontal) client size,
  content size, scroll position, blocked flag or possible flag is set.
\<close>

definition axisYChanged :: "32 word \<Rightarrow> bool" where
  "axisYChanged msk =
     (maskBit msk 0 \<or> maskBit msk 2 \<or> maskBit msk 4 \<or> maskBit msk 6 \<or> maskBit msk 8)"

definition axisXChanged :: "32 word \<Rightarrow> bool" where
  "axisXChanged msk =
     (maskBit msk 1 \<or> maskBit msk 3 \<or> maskBit msk 5 \<or> maskBit msk 7 \<or> maskBit msk 9)"

text \<open>
  Lines 520 to 543: the styles of the vertical thumb, for the track's inner height
  \<open>trackSize\<close> (read at line 521).
\<close>

definition placeThumbY :: "props \<Rightarrow> ScrollValues \<Rightarrow> jsnum \<Rightarrow> thumb \<Rightarrow> thumb" where
  "placeThumbY p cur trackSize th =
     (if ToBoolean (sv_scrollYPossible cur)
      then (let thumbSize = computeThumbSize trackSize
                  (ToNumber (sv_scrollHeight cur)) (ToNumber (sv_clientHeight cur))
                  (minimalThumbsSize p);
                thumbOffset = computeThumbOffset trackSize thumbSize
                  (ToNumber (sv_scrollHeight cur)) (ToNumber (sv_clientHeight cur))
                  (ToNumber (sv_scrollTop cur))
            in th\<lparr>th_transform := Some (TranslateY thumbOffset),
                  th_height := Some (Px thumbSize),
                  th_display := None\<rparr>)
      else th\<lparr>th_transform := None, th_height := Some (Px (Num 0)),
              th_display := Some DisplayNone\<rparr>)"

text \<open>
  Lines 552 to 579: the styles of the horizontal thumb. Lines 568 to 570 mirror the
  offset that is placed when \<open>this.state.isRtl\<close> is truthy.
\<close>

definition placeThumbX :: "props \<Rightarrow> state \<Rightarrow> ScrollValues \<Rightarrow> jsnum \<Rightarrow> thumb \<Rightarrow> thumb" where
  "placeThumbX p st cur trackSize th =
     (if ToBoolean (sv_scrollXPossible cur)
      then (let thumbSize = computeThumbSize trackSize
                  (ToNumber (sv_scrollWidth cur)) (ToNumber (sv_clientWidth cur))
                  (minimalThumbsSize p);
                thumbOffset0 = computeThumbOffset trackSize thumbSize
                  (ToNumber (sv_scrollWidth cur)) (ToNumber (sv_clientWidth cur))
                  (ToNumber (sv_scrollLeft cur));
                thumbOffset = (if ToBoolean (st_isRtl st)
                               then js_sub (js_add thumbSize thumbOffset0) trackSize
                               else thumbOffset0)
            in th\<lparr>th_transform := Some (TranslateX thumbOffset),
                  th_width := Some (Px thumbSize),
                  th_display := None\<rparr>)
      else th\<lparr>th_transform := None, th_width := Some (Px (Num 0)),
              th_display := Some DisplayNone\<rparr>)"

text \<open>Lines 516 to 545: the vertical track and thumb.\<close>

definition updateTrackY :: "32 word \<Rightarrow> ScrollValues \<Rightarrow> component \<Rightarrow> error + component" where
  "updateTrackY msk cur c =
     (case trackYEl c of
        None \<Rightarrow> Inr c
      | Some tr \<Rightarrow>
          (let tr1 = (if maskBit msk 10
                      then tr\<lparr>tr_display := (if ToBoolean (sv_trackYVisible cur) then None else Some DisplayNone)\<rparr>
                      else tr);
               c1 = c\<lparr>trackYEl := Some tr1\<rparr>
           in if axisYChanged msk
              then (case thumbYEl c1 of
                      None \<Rightarrow> Inl TypeError
                    | Some th \<Rightarrow>
                        Inr (c1\<lparr>thumbYEl := Some (placeThumbY (props c1) cur (tr_innerHeight tr1) th)\<rparr>))
              else Inr c1))"

text \<open>Lines 548 to 581: the horizontal track and thumb.\<close>

definition updateTrackX :: "32 word \<Rightarrow> ScrollValues \<Rightarrow> component \<Rightarrow> error + component" where
  "updateTrackX msk cur c =
     (case trackXEl c of
        None \<Rightarrow> Inr c
      | Some tr \<Rightarrow>
          (let tr1 = (if maskBit msk 11
                      then tr\<lparr>tr_display := (if ToBoolean (sv_trackXVisible cur) then None else Some DisplayNone)\<rparr>
                      else tr);
               c1 = c\<lparr>trackXEl := Some tr1\<rparr>
           in if axisXChanged msk
              then (case thumbXEl c1 of
                      None \<Rightarrow> Inl TypeError
                    | Some th \<Rightarrow>
                        Inr (c1\<lparr>thumbXEl := Some (placeThumbX (props c1) (state c1) cur (tr_innerWidth tr1) th)\<rparr>))
              else Inr c1))"

text \<open>Lines 583 to 586: the content sizes translated to the holder.\<close>

definition updateHolder :: "32 word \<Rightarrow> ScrollValues \<Rightarrow> component \<Rightarrow> error + component" where
  "updateHolder msk cur c =
     (if translateContentSizesToHolder (props c) \<and> wrapperEl c \<and> (maskBit msk 2 \<or> maskBit msk 3)
      then (case holderEl c of
              None \<Rightarrow> Inl TypeError
            | Some ho \<Rightarrow> Inr (c\<lparr>holderEl := Some (ho\<lparr>ho_width := Some (Px (ToNumber (sv_scrollWidth cur))),
                                                       ho_height := Some (Px (ToNumber (sv_scrollHeight cur)))\<rparr>)\<rparr>))
      else Inr c)"

text \<open>Lines 588 to 590: the \<open>onScroll\<close> callback, not on the very first commit.\<close>

definition notifyScroll :: "ScrollValues \<Rightarrow> component \<Rightarrow> component" where
  "notifyScroll prevScrollValues c =
     (if sv_scrollTop prevScrollValues \<noteq> None \<and> onScroll (props c)
      then c\<lparr>effects := effects c @ [OnScroll (scrollValues c) prevScrollValues]\<rparr>
      else c)"

text \<open>Lines 512 to 592: the new sample becomes the stored snapshot and the visuals follow.\<close>

definition commit :: "32 word \<Rightarrow> ScrollValues \<Rightarrow> component \<Rightarrow> error + (component \<times> ScrollValues)" where
  "commit msk cur c =
     (let prevScrollValues = scrollValues c;
          c1 = c\<lparr>scrollValues := cur\<rparr>
      in case updateTrackY msk cur c1 of
           Inl e \<Rightarrow> Inl e
         | Inr c2 \<Rightarrow>
             (case updateTrackX msk cur c2 of
                Inl e \<Rightarrow> Inl e
              | Inr c3 \<Rightarrow>
                  (case updateHolder msk cur c3 of
                     Inl e \<Rightarrow> Inl e
                   | Inr c4 \<Rightarrow>
                       (let c5 = notifyScroll prevScrollValues c4
                        in Inr (c5, scrollValues c5)))))"

text \<open>Lines 500 to 507: only the two visibility fields are stored, and React is asked to follow.\<close>

definition storeVisibility :: "ScrollValues \<Rightarrow> component \<Rightarrow> component" where
  "storeVisibility cur c =
     c\<lparr>scrollValues := (scrollValues c)\<lparr>sv_trackYVisible := sv_trackYVisible cur,
                                        sv_trackXVisible := sv_trackXVisible cur\<rparr>,
       effects := effects c @ [SetState_tracks (sv_trackYVisible cur) (sv_trackXVisible cur)]\<rparr>"

text \<open>
  Which mask bit stands for which comparison; used to show that the recursion of \<open>update\<close>
  ends.
\<close>

lemma bit_exp_word32: "bit ((2::32 word) ^ j) k = (k = j \<and> k < 32)"
  by (auto simp add: bit_exp_iff)

lemma maskBit_bit: "maskBit m k = bit m k"
  by (simp add: maskBit_def and_exp_eq_0_iff_not_bit)

lemma maskBit_setBitIf: "maskBit (setBitIf b j m) k = (maskBit m k \<or> (b \<and> j = k \<and> k < 32))"
  by (auto simp add: maskBit_bit setBitIf_def bit_or_iff bit_exp_word32)

lemma maskBit_0: "maskBit 0 k = False"
  by (simp add: maskBit_bit)

lemma maskBit_10: "maskBit (changeMask old cur) 10 = (sv_trackYVisible old \<noteq> sv_trackYVisible cur)"
  by (simp add: changeMask_def maskBit_setBitIf maskBit_0)

lemma maskBit_11: "maskBit (changeMask old cur) 11 = (sv_trackXVisible old \<noteq> sv_trackXVisible cur)"
  by (simp add: changeMask_def maskBit_setBitIf maskBit_0)

text \<open>
  Whether a pass over \<open>c\<close> would find a visibility field of the stored snapshot different
  from the fresh sample: the measure of the recursion below (not in the source).
\<close>

definition visibilityChanged :: "component \<Rightarrow> bool" where
  "visibilityChanged c =
     (case st_isRtl (state c) of
        None \<Rightarrow> False
      | Some isRtl \<Rightarrow>
          (case contentEl c of
             None \<Rightarrow> False
           | Some el \<Rightarrow>
               (let cur = sample (props c) isRtl el
                in sv_trackYVisible (scrollValues c) \<noteq> sv_trackYVisible cur
                   \<or> sv_trackXVisible (scrollValues c) \<noteq> sv_trackXVisible cur)))"

text \<open>
  \<open>update = (forced = false) => { ... }\<close>, lines 439 to 593. It returns \<open>this.scrollValues\<close>
  in every branch; the result here is the instance after the pass together with the
  returned object. \<open>getComputedStyle\<close> of a \<open>null\<close> element and a property read on a
  \<open>null\<close> ref throw a \<open>TypeError\<close>.
\<close>

function update :: "bool \<Rightarrow> component \<Rightarrow> error + (component \<times> ScrollValues)" where
  "update forced c =
     (case st_isRtl (state c) of
        None \<Rightarrow>
          (case contentEl c of
             None \<Rightarrow> Inl TypeError
           | Some el \<Rightarrow>
               Inr (c\<lparr>effects := effects c @ [SetState_isRtl (el_direction_rtl el)]\<rparr>, scrollValues c))
      | Some isRtl \<Rightarrow>
          (case contentEl c of
             None \<Rightarrow> Inl TypeError
           | Some el \<Rightarrow>
               (let currentScrollValues = sample (props c) isRtl el;
                    msk = changeMask (scrollValues c) currentScrollValues
                in if msk = 0 \<and> \<not> forced then Inr (c, scrollValues c)
                   else if maskBit msk 10 \<or> maskBit msk 11
                   then update True (storeVisibility currentScrollValues c)
                   else commit msk currentScrollValues c)))"
  by pat_completeness auto
termination
proof (relation "measure (\<lambda>(forced, c). if visibilityChanged c then 1 else 0)")
  show "wf (measure (\<lambda>(forced, c). if visibilityChanged c then 1 else 0))" by simp
next
  fix forced :: bool and c :: component and isRtl el cur msk
  assume rtl: "st_isRtl (state c) = Some isRtl"
    and el: "contentEl c = Some el"
    and cur: "cur = sample (props c) isRtl el"
    and msk: "msk = changeMask (scrollValues c) cur"
    and "\<not> (msk = 0 \<and> \<not> forced)"
    and vis: "maskBit msk 10 \<or> maskBit msk 11"
  have before: "visibilityChanged c"
    using rtl el cur msk vis by (simp add: visibilityChanged_def maskBit_10 maskBit_11)
  have after: "\<not> visibilityChanged (storeVisibility cur c)"
    using rtl el cur by (simp add: visibilityChanged_def storeVisibility_def)
  show "((True, storeVisibility cur c), (forced, c))
        \<in> measure (\<lambda>(forced, c). if visibilityChanged c then 1 else 0)"
    using before after by simp
qed

section \<open>The public accessors and commands\<close>

text \<open>The getters, lines 293 to 380: the viewport's value, or \<open>0\<close> without a viewport.\<close>

definition get_scrollTop :: "component \<Rightarrow> jsnum" where
  "get_scrollTop c = (case contentEl c of Some el \<Rightarrow> el_scrollTop el | None \<Rightarrow> Num 0)"

definition get_scrollLeft :: "component \<Rightarrow> jsnum" where
  "get_scrollLeft c = (case contentEl c of Some el \<Rightarrow> el_scrollLeft el | None \<Rightarrow> Num 0)"

definition get_scrollHeight :: "component \<Rightarrow> jsnum" where
  "get_scrollHeight c = (case contentEl c of Some el \<Rightarrow> el_scrollHeight el | None \<Rightarrow> Num 0)"

definition get_scrollWidth :: "component \<Rightarrow> jsnum" where
  "get_scrollWidth c = (case contentEl c of Some el \<Rightarrow> el_scrollWidth el | None \<Rightarrow> Num 0)"

definition get_clientHeight :: "component \<Rightarrow> jsnum" where
  "get_clientHeight c = (case contentEl c of Some el \<Rightarrow> el_clientHeight el | None \<Rightarrow> Num 0)"

definition get_clientWidth :: "component \<Rightarrow> jsnum" where
  "get_clientWidth c = (case contentEl c of Some el \<Rightarrow> el_clientWidth el | None \<Rightarrow> Num 0)"

text \<open>
  \<^verbatim>\<open>set scrollTop(top) { if (this.contentEl) { this.contentEl.scrollTop = top; this.update(); } }\<close>
  The value \<open>update\<close> returns is dropped.
\<close>

definition set_scrollTop :: "jsnum \<Rightarrow> component \<Rightarrow> error + component" where
  "set_scrollTop v c =
     (case contentEl c of
        None \<Rightarrow> Inr c
      | Some el \<Rightarrow>
          (case update False (c\<lparr>contentEl := Some (el\<lparr>el_scrollTop := v\<rparr>)\<rparr>) of
             Inl e \<Rightarrow> Inl e
           | Inr r \<Rightarrow> Inr (fst r)))"

text \<open>
  \<^verbatim>\<open>set scrollLeft(left) { if (this.contentEl) { this.contentEl.scrollLeft = left; } }\<close>
\<close>

definition set_scrollLeft :: "jsnum \<Rightarrow> component \<Rightarrow> component" where
  "set_scrollLeft v c =
     (case contentEl c of
        None \<Rightarrow> c
      | Some el \<Rightarrow> c\<lparr>contentEl := Some (el\<lparr>el_scrollLeft := v\<rparr>)\<rparr>)"

text \<open>
  The four commands, lines 387 to 432. Each returns \<open>this\<close>: the result is the instance
  after the command.
\<close>

definition scrollToTop :: "component \<Rightarrow> component" where
  "scrollToTop c =
     (case contentEl c of
        None \<Rightarrow> c
      | Some el \<Rightarrow> c\<lparr>contentEl := Some (el\<lparr>el_scrollTop := Num 0\<rparr>)\<rparr>)"

definition scrollToBottom :: "component \<Rightarrow> component" where
  "scrollToBottom c =
     (case contentEl c of
        None \<Rightarrow> c
      | Some el \<Rightarrow> c\<lparr>contentEl := Some (el\<lparr>el_scrollTop := el_scrollHeight el\<rparr>)\<rparr>)"

definition scrollToLeft :: "component \<Rightarrow> component" where
  "scrollToLeft c =
     (case contentEl c of
        None \<Rightarrow> c
      | Some el \<Rightarrow> c\<lparr>contentEl := Some (el\<lparr>el_scrollLeft := Num 0\<rparr>)\<rparr>)"

definition scrollToRight :: "component \<Rightarrow> component" where
  "scrollToRight c =
     (case contentEl c of
        None \<Rightarrow> c
      | Some el \<Rightarrow> c\<lparr>contentEl := Some (el\<lparr>el_scrollLeft := el_scrollWidth el\<rparr>)\<rparr>)"

section \<open>Gestures\<close>

text \<open>
  The scroll value for a pointer offset on an axis, as both handlers compute it (lines 601
  to 607 and 649 to 655 for X, 608 to 614 and 660 to 666 for Y). A \<open>null\<close> track, thumb or
  viewport is a \<open>TypeError\<close>.
\<close>

definition scrollForOffsetX :: "jsnum \<Rightarrow> component \<Rightarrow> error + jsnum" where
  "scrollForOffsetX offset c =
     (case trackXEl c of
        None \<Rightarrow> Inl TypeError
      | Some tr \<Rightarrow>
          (case thumbXEl c of
             None \<Rightarrow> Inl TypeError
           | Some th \<Rightarrow>
               (case contentEl c of
                  None \<Rightarrow> Inl TypeError
                | Some el \<Rightarrow>
                    Inr (computeScrollForOffset (tr_innerWidth tr) (th_clientWidth th) offset
                           (el_scrollWidth el) (el_clientWidth el)))))"

definition scrollForOffsetY :: "jsnum \<Rightarrow> component \<Rightarrow> error + jsnum" where
  "scrollForOffsetY offset c =
     (case trackYEl c of
        None \<Rightarrow> Inl TypeError
      | Some tr \<Rightarrow>
          (case thumbYEl c of
             None \<Rightarrow> Inl TypeError
           | Some th \<Rightarrow>
               (case contentEl c of
                  None \<Rightarrow> Inl TypeError
                | Some el \<Rightarrow>
                    Inr (computeScrollForOffset (tr_innerHeight tr) (th_clientHeight th) offset
                           (el_scrollHeight el) (el_clientHeight el)))))"

text \<open>The two assignments of the \<open>"jump"\<close> branch, lines 617 and 618.\<close>

definition jumpTo :: "axis \<Rightarrow> jsnum \<Rightarrow> viewport \<Rightarrow> viewport" where
  "jumpTo ax scrollTarget el =
     (let el1 = (if ax = TYPE_X then el\<lparr>el_scrollLeft := scrollTarget\<rparr> else el)
      in if ax = TYPE_Y then el1\<lparr>el_scrollTop := scrollTarget\<rparr> else el1)"

text \<open>The two assignments of the \<open>"step"\<close> branch, lines 620 to 629.\<close>

definition stepTo :: "axis \<Rightarrow> jsnum \<Rightarrow> viewport \<Rightarrow> viewport" where
  "stepTo ax scrollTarget el =
     (let el1 = (if ax = TYPE_X
                 then el\<lparr>el_scrollLeft :=
                          (if js_lt (el_scrollLeft el) scrollTarget
                           then js_add (el_scrollLeft el) (el_clientWidth el)
                           else js_sub (el_scrollLeft el) (el_clientWidth el))\<rparr>
                 else el)
      in if ax = TYPE_Y
         then el1\<lparr>el_scrollTop :=
                    (if js_lt (el_scrollTop el1) scrollTarget
                     then js_add (el_scrollTop el1) (el_clientHeight el1)
                     else js_sub (el_scrollTop el1) (el_clientHeight el1))\<rparr>
         else el1)"

text \<open>\<open>handleTrackClick = (e, params) => { ... }\<close>, lines 595 to 631, with \<open>params = {axis, offset}\<close>.\<close>

definition handleTrackClick :: "axis \<Rightarrow> jsnum \<Rightarrow> component \<Rightarrow> error + component" where
  "handleTrackClick ax offset c =
     (let c1 = (if ax = TYPE_X \<and> trackXProps_onClick (props c)
                then c\<lparr>effects := effects c @ [OnTrackClick ax offset]\<rparr> else c);
          c2 = (if ax = TYPE_Y \<and> trackYProps_onClick (props c1)
                then c1\<lparr>effects := effects c1 @ [OnTrackClick ax offset]\<rparr> else c1)
      in case (if ax = TYPE_X then scrollForOffsetX offset c2 else scrollForOffsetY offset c2) of
           Inl e \<Rightarrow> Inl e
         | Inr scrollTarget \<Rightarrow>
             (case contentEl c2 of
                None \<Rightarrow> Inl TypeError
              | Some el \<Rightarrow>
                  if trackClickBehavior (props c2) = Jump
                  then Inr (c2\<lparr>contentEl := Some (jumpTo ax scrollTarget el)\<rparr>)
                  else if trackClickBehavior (props c2) = Step
                  then Inr (c2\<lparr>contentEl := Some (stepTo ax scrollTarget el)\<rparr>)
                  else Inr c2))"

section \<open>The activity detector and its timer\<close>

text \<open>
  The host's timers: \<open>setTimeout\<close> hands out the next handle and queues the callback
  for \<open>now + delay\<close>; \<open>clearTimeout\<close> removes the timer with the handle. The only callback
  this instance ever queues is the one of \<open>scrollDetect\<close>, so a timer is its handle and
  its due time.
\<close>

record host =
  now :: nat
  nextHandle :: nat
  timers :: "(nat \<times> nat) list"

definition setTimeout :: "nat \<Rightarrow> host \<Rightarrow> nat \<times> host" where
  "setTimeout delay h =
     (nextHandle h,
      h\<lparr>nextHandle := Suc (nextHandle h), timers := timers h @ [(nextHandle h, now h + delay)]\<rparr>)"

definition clearTimeout :: "nat \<Rightarrow> host \<Rightarrow> host" where
  "clearTimeout k h = h\<lparr>timers := filter (\<lambda>tm. fst tm \<noteq> k) (timers h)\<rparr>"

text \<open>The handle in a condition: \<open>null\<close> and \<open>0\<close> are falsy.\<close>

fun handleTruthy :: "nat option \<Rightarrow> bool" where
  "handleTruthy None = False"
| "handleTruthy (Some k) = (k \<noteq> 0)"

text \<open>The callback queued at lines 282 to 285.\<close>

definition timerCallback :: "component \<Rightarrow> component" where
  "timerCallback c =
     (let c1 = c\<lparr>timeout := None\<rparr>
      in if onScrollStop (props c1)
         then c1\<lparr>effects := effects c1 @ [OnScrollStop (scrollValues c1)]\<rparr>
         else c1)"

text \<open>\<open>scrollDetect = () => { ... }\<close>, lines 271 to 286.\<close>

definition scrollDetect :: "host \<times> component \<Rightarrow> host \<times> component" where
  "scrollDetect w =
     (let h = fst w; c = snd w
      in if \<not> onScrollStart (props c) \<and> \<not> onScrollStop (props c) then (h, c)
         else
           (let c1 = (if \<not> handleTruthy (timeout c) \<and> onScrollStart (props c)
                      then c\<lparr>effects := effects c @ [OnScrollStart (scrollValues c)]\<rparr>
                      else c);
                h1 = (if handleTruthy (timeout c1)
                      then (case timeout c1 of Some k \<Rightarrow> clearTimeout k h | None \<Rightarrow> h)
                      else h);
                r = setTimeout (scrollDetectionThreshold (props c1)) h1
            in (snd r, c1\<lparr>timeout := Some (fst r)\<rparr>)))"

text \<open>
  The host reaching time \<open>t\<close>: every timer due by then runs its callback and leaves the
  queue.
\<close>

definition elapse :: "nat \<Rightarrow> host \<times> component \<Rightarrow> host \<times> component" where
  "elapse t w =
     (let h = fst w; c = snd w
      in (h\<lparr>now := max (now h) t, timers := filter (\<lambda>tm. \<not> snd tm \<le> t) (timers h)\<rparr>,
          fold (\<lambda>tm. timerCallback) (filter (\<lambda>tm. snd tm \<le> t) (timers h)) c))"

text \<open>Scroll signals (\<open>handleScrollEvent\<close>, line 267) arriving at the given times.\<close>

fun signals :: "nat list \<Rightarrow> host \<times> component \<Rightarrow> host \<times> component" where
  "signals [] w = w"
| "signals (t # ts) w = signals ts (scrollDetect (elapse t w))"

text \<open>\<open>handleThumbDrag = params => { ... }\<close>, lines 643 to 668.\<close>

definition handleThumbDrag :: "axis \<Rightarrow> jsnum \<Rightarrow> host \<times> component \<Rightarrow> error + host \<times> component" where
  "handleThumbDrag ax offset w =
     (let w1 = scrollDetect w; h = fst w1; c = snd w1
      in case (if ax = TYPE_X
               then (let c1 = (if thumbXProps_onDrag (props c)
                               then c\<lparr>effects := effects c @ [OnThumbDrag ax offset]\<rparr> else c)
                     in case scrollForOffsetX offset c1 of
                          Inl e \<Rightarrow> Inl e
                        | Inr v \<Rightarrow>
                            (case contentEl c1 of
                               None \<Rightarrow> Inl TypeError
                             | Some el \<Rightarrow> Inr (c1\<lparr>contentEl := Some (el\<lparr>el_scrollLeft := v\<rparr>)\<rparr>)))
               else Inr c) of
           Inl e \<Rightarrow> Inl e
         | Inr c2 \<Rightarrow>
             (if ax = TYPE_Y
              then (let c3 = (if thumbYProps_onDrag (props c2)
                              then c2\<lparr>effects := effects c2 @ [OnThumbDrag ax offset]\<rparr> else c2)
                    in case scrollForOffsetY offset c3 of
                         Inl e \<Rightarrow> Inl e
                       | Inr v \<Rightarrow>
                           (case contentEl c3 of
                              None \<Rightarrow> Inl TypeError
                            | Some el \<Rightarrow> Inr (h, c3\<lparr>contentEl := Some (el\<lparr>el_scrollTop := v\<rparr>)\<rparr>)))
              else Inr (h, c2)))"

section \<open>Construction and a concrete instance\<close>

text \<open>The constructor, lines 210 to 237, and the modelled part of \<open>defaultProps\<close>, lines 130 to 165.\<close>

definition initialScrollValues :: ScrollValues where
  "initialScrollValues =
     \<lparr> sv_clientHeight = None, sv_clientWidth = None, sv_scrollHeight = None,
       sv_scrollWidth = None, sv_scrollTop = None, sv_scrollLeft = None,
       sv_scrollYBlocked = None, sv_scrollXBlocked = None, sv_scrollYPossible = None,
       sv_scrollXPossible = None, sv_trackYVisible = None, sv_trackXVisible = None,
       sv_isRtl = None \<rparr>"

definition defaultProps :: props where
  "defaultProps =
     \<lparr> minimalThumbsSize = Num 30, trackClickBehavior = Jump, rtl = None,
       scrollDetectionThreshold = 100, translateContentSizesToHolder = False,
       noScrollX = False, noScrollY = False, noScroll = False,
       permanentTrackX = False, permanentTrackY = False, permanentTracks = False,
       onScroll = False, onScrollStart = False, onScrollStop = False,
       trackXProps_onClick = False, trackYProps_onClick = False,
       thumbXProps_onDrag = False, thumbYProps_onDrag = False \<rparr>"

definition constructor :: "props \<Rightarrow> component" where
  "constructor p =
     \<lparr> props = p,
       state = \<lparr> st_trackYVisible = True, st_trackXVisible = True, st_isRtl = rtl p \<rparr>,
       scrollValues = initialScrollValues,
       contentEl = None, trackYEl = None, trackXEl = None, thumbYEl = None, thumbXEl = None,
       holderEl = None, wrapperEl = False, timeout = None, effects = [] \<rparr>"

text \<open>
  A concrete instance for the examples: a viewport of 100 by 100 pixels over a content of
  800 by 500, scrolled to (100, 200); tracks of inner length 100 with thumbs of 30; the
  default props with \<open>rtl\<close> given and an \<open>onScroll\<close> callback. \<open>mounted\<close> is the instance
  after its first render, before any pass; \<open>synced\<close> is the same with the snapshot of a
  finished pass.
\<close>

definition demoViewport :: viewport where
  "demoViewport =
     \<lparr> el_clientHeight = Num 100, el_scrollHeight = Num 500, el_scrollTop = Num 200,
       el_clientWidth = Num 100, el_scrollWidth = Num 800, el_scrollLeft = Num 100,
       el_direction_rtl = False \<rparr>"

definition demoTrack :: track where
  "demoTrack = \<lparr> tr_innerWidth = Num 100, tr_innerHeight = Num 100, tr_display = None \<rparr>"

definition demoThumb :: thumb where
  "demoThumb =
     \<lparr> th_clientWidth = Num 30, th_clientHeight = Num 30, th_transform = None,
       th_width = None, th_height = None, th_display = None \<rparr>"

definition mounted :: "bool \<Rightarrow> component" where
  "mounted isRtl =
     (constructor (defaultProps\<lparr>rtl := Some isRtl, onScroll := True\<rparr>))
       \<lparr> contentEl := Some demoViewport,
         trackYEl := Some demoTrack, trackXEl := Some demoTrack,
         thumbYEl := Some demoThumb, thumbXEl := Some demoThumb,
         holderEl := Some \<lparr> ho_width = None, ho_height = None \<rparr>, wrapperEl := True \<rparr>"

definition synced :: "bool \<Rightarrow> component" where
  "synced isRtl = (mounted isRtl)\<lparr>scrollValues := sample (props (mounted isRtl)) isRtl demoViewport\<rparr>"

text \<open>The same instance with \<open>trackClickBehavior\<close> set to \<open>"step"\<close>.\<close>

definition stepping :: component where
  "stepping = (synced False)\<lparr>props := (props (synced False))\<lparr>trackClickBehavior := Step\<rparr>\<rparr>"

text \<open>
  The same instance on a horizontal track of inner width 30, as long as its thumb of 30
  (\<open>minimalThumbsSize\<close> on a short track).
\<close>

definition narrow :: component where
  "narrow = (synced False)\<lparr>trackXEl := Some (demoTrack\<lparr>tr_innerWidth := Num 30\<rparr>)\<rparr>"

text \<open>
  An instance whose content is as wide as its viewport, so that it cannot scroll
  horizontally. \<open>fitting\<close> is the instance after its first render, \<open>settled\<close> is what its
  first pass makes of it, and \<open>widened\<close> is \<open>settled\<close> once \<open>permanentTrackX\<close> has been switched
  on and the vertical track, next to the horizontal track now shown, has an inner height
  of 90 instead of 100.
\<close>

definition fittingViewport :: viewport where
  "fittingViewport = demoViewport\<lparr>el_scrollWidth := Num 100, el_scrollLeft := Num 0\<rparr>"

definition fitting :: component where
  "fitting = (mounted False)\<lparr>contentEl := Some fittingViewport\<rparr>"

definition settled :: component where
  "settled =
     fitting\<lparr>scrollValues := sample (props fitting) False fittingViewport,
             thumbYEl := Some (demoThumb\<lparr>th_transform := Some (TranslateY (Num 35)),
                                          th_height := Some (Px (Num 30)), th_display := None\<rparr>),
             thumbXEl := Some (demoThumb\<lparr>th_transform := None, th_width := Some (Px (Num 0)),
                                          th_display := Some DisplayNone\<rparr>),
             effects := [SetState_tracks (Some True) (Some False)]\<rparr>"


text \<open>A right-to-left instance that renders no vertical track.\<close>

definition horizontalOnly :: component where
  "horizontalOnly = (mounted True)\<lparr>trackYEl := None, thumbYEl := None\<rparr>"

text \<open>
  The same instance with both activity callbacks configured, and a host with no timer
  pending.
\<close>

definition detecting :: component where
  "detecting = (synced False)\<lparr>props := (props (synced False))\<lparr>onScrollStart := True, onScrollStop := True\<rparr>\<rparr>"

definition idleHost :: host where
  "idleHost = \<lparr> now = 0, nextHandle = 1, timers = [] \<rparr>"

section \<open>Notions for stating the results\<close>

text \<open>
  \<open>reproduces_within tol y v\<close>: the result \<open>y\<close> is a finite number at most \<open>tol\<close> away from
  \<open>v\<close>.
\<close>

fun reproduces_within :: "rat \<Rightarrow> jsnum \<Rightarrow> rat \<Rightarrow> bool" where
  "reproduces_within tol (Num y) v = (\<bar>y - v\<bar> \<le> tol)"
| "reproduces_within tol PosInf v = False"
| "reproduces_within tol NegInf v = False"
| "reproduces_within tol NaN v = False"

text \<open>
  The thumb size as the specification words it: \<open>0\<close> when \<open>scrollableSize\<close> is \<open>0\<close> or the
  proportional size \<open>ceil(trackSize * viewportSize / scrollableSize)\<close> equals \<open>trackSize\<close>,
  and the maximum of the proportional size and \<open>minimalSize\<close> otherwise.
\<close>

definition stated_thumbSize :: "rat \<Rightarrow> rat \<Rightarrow> rat \<Rightarrow> rat \<Rightarrow> rat" where
  "stated_thumbSize trackSize scrollableSize viewportSize minimalSize =
     (if scrollableSize = 0 \<or> of_int \<lceil>trackSize * viewportSize / scrollableSize\<rceil> = trackSize
      then 0
      else max (of_int \<lceil>trackSize * viewportSize / scrollableSize\<rceil>) minimalSize)"

text \<open>
  Magnitudes, for the results on rounding: \<open>magnitude a b x\<close> says that \<open>x\<close> lies between
  \<open>2 ^ -a\<close> and \<open>2 ^ b\<close> in absolute value, and a number is \<open>moderate\<close> when it lies between
  \<open>2 ^ -100\<close> and \<open>2 ^ 100\<close>, far from the limits of the doubles. \<open>near_one k e\<close> says that the
  factor \<open>e\<close> is within \<open>k\<close> units of \<open>2 ^ -53\<close> of 1: one rounding is a factor within one
  unit.
\<close>

definition magnitude :: "nat \<Rightarrow> nat \<Rightarrow> rat \<Rightarrow> bool" where
  "magnitude a b x = (1 / 2 ^ a \<le> \<bar>x\<bar> \<and> \<bar>x\<bar> \<le> 2 ^ b)"

definition moderate :: "rat \<Rightarrow> bool" where
  "moderate x = magnitude 100 100 x"

definition near_one :: "rat \<Rightarrow> rat \<Rightarrow> bool" where
  "near_one k e = (\<bar>e - 1\<bar> \<le> k / 2 ^ 53)"

text \<open>
  A step toward the target, as the specification words it: the position moves, and it
  moves to the side of the current position on which the target lies.
\<close>

definition steps_toward :: "jsnum \<Rightarrow> jsnum \<Rightarrow> jsnum \<Rightarrow> bool" where
  "steps_toward current target new =
     ((js_lt current target \<and> js_lt current new) \<or> (js_lt target current \<and> js_lt new current))"

text \<open>
  A burst: signal times in order, each less than \<open>d\<close> after the one before. And the
  notifications a burst may cause: one for each configured callback.
\<close>

fun close_together :: "nat \<Rightarrow> nat list \<Rightarrow> bool" where
  "close_together d (t # u # ts) = (t \<le> u \<and> u < t + d \<and> close_together d (u # ts))"
| "close_together d [t] = True"
| "close_together d [] = True"

definition startEffects :: "component \<Rightarrow> effect list" where
  "startEffects c = (if onScrollStart (props c) then [OnScrollStart (scrollValues c)] else [])"

definition stopEffects :: "component \<Rightarrow> effect list" where
  "stopEffects c = (if onScrollStop (props c) then [OnScrollStop (scrollValues c)] else [])"

declare update.simps [simp del]

lemmas demo_defs = synced_def mounted_def constructor_def defaultProps_def demoViewport_def demoTrack_def
  demoThumb_def initialScrollValues_def

lemmas pass_defs = commit_def updateTrackY_def updateTrackX_def updateHolder_def notifyScroll_def
  storeVisibility_def axisYChanged_def axisXChanged_def placeThumbY_def placeThumbX_def sample_def js_gt_def strict_eq_def Let_def

section \<open>Rounding: evaluation\<close>

text \<open>Rules that let the simplifier compute \<open>toDouble\<close> of a given rational.\<close>

lemma scale_up_step: "k < 1024 \<Longrightarrow> 2 ^ (k + 1) \<le> \<bar>x\<bar> \<Longrightarrow> scale_up x k = scale_up x (k + 1)"
  using scale_up.simps [of x k] by simp

lemma scale_up_stop: "\<not> (k < 1024 \<and> 2 ^ (k + 1) \<le> \<bar>x\<bar>) \<Longrightarrow> scale_up x k = k"
  using scale_up.simps [of x k] by auto

lemma scale_down_step: "k < 1022 \<Longrightarrow> \<bar>x\<bar> < 1 / 2 ^ k \<Longrightarrow> scale_down x k = scale_down x (k + 1)"
  using scale_down.simps [of x k] by simp

lemma scale_down_stop: "\<not> (k < 1022 \<and> \<bar>x\<bar> < 1 / 2 ^ k) \<Longrightarrow> scale_down x k = k"
  using scale_down.simps [of x k] by auto

lemma floor_rat_numeral: "\<lfloor>numeral a / numeral b :: rat\<rfloor> = numeral a div numeral b"
  using floor_divide_of_int_eq [of "numeral a" "numeral b", where ?'a = rat] by simp

lemma floor_rat_neg_numeral: "\<lfloor>- (numeral a / numeral b) :: rat\<rfloor> = - numeral a div numeral b"
  using floor_divide_of_int_eq [of "- numeral a" "numeral b", where ?'a = rat] by simp

lemma ceiling_rat_numeral: "\<lceil>numeral a / numeral b :: rat\<rceil> = - (- numeral a div numeral b)"
  by (simp add: ceiling_def floor_rat_neg_numeral)

lemma ceiling_rat_neg_numeral: "\<lceil>- (numeral a / numeral b) :: rat\<rceil> = - (numeral a div numeral b)"
  by (simp add: ceiling_def floor_rat_numeral)

lemmas double_eval = toDouble_def binade_def roundTiesToEven_def Let_def
  scale_up_step scale_up_stop scale_down_step scale_down_stop floor_rat_numeral floor_rat_neg_numeral
  ceiling_rat_numeral ceiling_rat_neg_numeral

section \<open>The change mask, bit by bit\<close>

lemma maskBit_setBitIf': "maskBit (setBitIf b j m) k = ((k = j \<and> j < 32 \<and> b) \<or> maskBit m k)"
  by (auto simp add: maskBit_bit setBitIf_def bit_or_iff bit_exp_word32)

lemma maskBit_changeMask:
  "maskBit (changeMask old cur) k =
     ((k = 12 \<and> sv_isRtl old \<noteq> sv_isRtl cur)
    \<or> (k = 11 \<and> sv_trackXVisible old \<noteq> sv_trackXVisible cur)
    \<or> (k = 10 \<and> sv_trackYVisible old \<noteq> sv_trackYVisible cur)
    \<or> (k = 9 \<and> sv_scrollXPossible old \<noteq> sv_scrollXPossible cur)
    \<or> (k = 8 \<and> sv_scrollYPossible old \<noteq> sv_scrollYPossible cur)
    \<or> (k = 7 \<and> sv_scrollXBlocked old \<noteq> sv_scrollXBlocked cur)
    \<or> (k = 6 \<and> sv_scrollYBlocked old \<noteq> sv_scrollYBlocked cur)
    \<or> (k = 5 \<and> strict_neq (sv_scrollLeft old) (sv_scrollLeft cur))
    \<or> (k = 4 \<and> strict_neq (sv_scrollTop old) (sv_scrollTop cur))
    \<or> (k = 3 \<and> strict_neq (sv_scrollWidth old) (sv_scrollWidth cur))
    \<or> (k = 2 \<and> strict_neq (sv_scrollHeight old) (sv_scrollHeight cur))
    \<or> (k = 1 \<and> strict_neq (sv_clientWidth old) (sv_clientWidth cur))
    \<or> (k = 0 \<and> strict_neq (sv_clientHeight old) (sv_clientHeight cur)))"
  unfolding changeMask_def maskBit_setBitIf' maskBit_0 by simp

lemma setBitIf_eq_0: "j < 32 \<Longrightarrow> (setBitIf b j m = 0) = (\<not> b \<and> m = 0)"
proof -
  assume j: "j < 32"
  then have "bit ((2::32 word) ^ j) j"
    by (simp add: bit_exp_word32)
  then have "(2::32 word) ^ j \<noteq> 0"
    using j by auto
  then show ?thesis
    by (simp add: setBitIf_def or_eq_0_iff)
qed

lemma changeMask_eq_0_iff:
  "(changeMask old cur = 0) =
     (sv_isRtl old = sv_isRtl cur
    \<and> sv_trackXVisible old = sv_trackXVisible cur
    \<and> sv_trackYVisible old = sv_trackYVisible cur
    \<and> sv_scrollXPossible old = sv_scrollXPossible cur
    \<and> sv_scrollYPossible old = sv_scrollYPossible cur
    \<and> sv_scrollXBlocked old = sv_scrollXBlocked cur
    \<and> sv_scrollYBlocked old = sv_scrollYBlocked cur
    \<and> \<not> strict_neq (sv_scrollLeft old) (sv_scrollLeft cur)
    \<and> \<not> strict_neq (sv_scrollTop old) (sv_scrollTop cur)
    \<and> \<not> strict_neq (sv_scrollWidth old) (sv_scrollWidth cur)
    \<and> \<not> strict_neq (sv_scrollHeight old) (sv_scrollHeight cur)
    \<and> \<not> strict_neq (sv_clientWidth old) (sv_clientWidth cur)
    \<and> \<not> strict_neq (sv_clientHeight old) (sv_clientHeight cur))"
  unfolding changeMask_def by (simp add: setBitIf_eq_0)

section \<open>Rounding: the error of one operation\<close>

text \<open>
  A number between \<open>2 ^ -1022\<close> and \<open>2 ^ 1023\<close> in absolute value is rounded to a double
  within the relative error \<open>2 ^ -53\<close>; one of at least \<open>2 ^ -K\<close> is rounded to a multiple of
  \<open>2 ^ -(K + 52)\<close>.
\<close>

lemma binade_pos: "0 < binade x"
  by (simp add: binade_def)

lemma scale_up_le: "2 ^ k \<le> \<bar>x\<bar> \<Longrightarrow> 2 ^ scale_up x k \<le> \<bar>x\<bar>"
proof (induction x k rule: scale_up.induct)
  case (1 x k)
  show ?case
  proof (cases "k < 1024 \<and> 2 ^ (k + 1) \<le> \<bar>x\<bar>")
    case True
    then show ?thesis
      using 1 scale_up_step [of k x] by simp
  next
    case False
    then show ?thesis
      using 1 scale_up_stop [of k x] by simp
  qed
qed

lemma scale_down_le: "1 / 2 ^ 1022 \<le> \<bar>x\<bar> \<Longrightarrow> k \<le> 1022 \<Longrightarrow> 1 / 2 ^ scale_down x k \<le> \<bar>x\<bar>"
proof (induction x k rule: scale_down.induct)
  case (1 x k)
  show ?case
  proof (cases "k < 1022 \<and> \<bar>x\<bar> < 1 / 2 ^ k")
    case True
    then show ?thesis
      using 1 scale_down_step [of k x] by simp
  next
    case False
    then have stop: "scale_down x k = k"
      by (rule scale_down_stop)
    show ?thesis
    proof (cases "k < 1022")
      case True
      then show ?thesis using False stop by simp
    next
      case False
      then have "k = 1022" using 1(3) by simp
      then show ?thesis using stop 1(2) by simp
    qed
  qed
qed

lemma scale_down_bound: "1 / 2 ^ K \<le> \<bar>x\<bar> \<Longrightarrow> k \<le> K \<Longrightarrow> scale_down x k \<le> K"
proof (induction x k rule: scale_down.induct)
  case (1 x k)
  show ?case
  proof (cases "k < 1022 \<and> \<bar>x\<bar> < 1 / 2 ^ k")
    case True
    then have "1 / 2 ^ K < 1 / (2::rat) ^ k"
      using 1(2) by simp
    then have "(2::rat) ^ k < 2 ^ K"
      by (simp add: field_simps)
    then have "k < K"
      by simp
    then show ?thesis
      using 1 True scale_down_step [of k x] by simp
  next
    case False
    then show ?thesis
      using 1(3) scale_down_stop [of k x] by simp
  qed
qed

lemma binade_le: "1 / 2 ^ 1022 \<le> \<bar>x\<bar> \<Longrightarrow> binade x \<le> \<bar>x\<bar>"
  using scale_up_le [of 0 x] scale_down_le [of x 0]
  by (simp add: binade_def)

lemma roundTiesToEven_near: "\<bar>of_int (roundTiesToEven y) - y\<bar> \<le> 1 / 2"
proof -
  define f where "f = \<lfloor>y\<rfloor>"
  define d where "d = y - of_int f"
  have d: "0 \<le> d" "d < 1"
    unfolding d_def f_def by linarith+
  have y: "y = of_int f + d"
    by (simp add: d_def)
  have r: "roundTiesToEven y = (if d < 1 / 2 then f else if 1 / 2 < d then f + 1 else if even f then f else f + 1)"
    by (simp add: roundTiesToEven_def Let_def f_def d_def)
  have "\<bar>of_int (if d < 1 / 2 then f else if 1 / 2 < d then f + 1 else if even f then f else f + 1)
          - (of_int f + d)\<bar> \<le> 1 / 2"
    using d by (auto simp add: abs_if)
  then show ?thesis
    using r y by simp
qed

lemma toDouble_rel:
  assumes lo: "1 / 2 ^ 1022 \<le> \<bar>x\<bar>" and hi: "\<bar>x\<bar> \<le> 2 ^ 1023"
  shows "\<exists>d. \<bar>d\<bar> \<le> 1 / 2 ^ 53 \<and> toDouble x = Num (x * (1 + d))"
proof -
  define ulp where "ulp = binade x / 2 ^ 52"
  define r where "r = of_int (roundTiesToEven (x / ulp)) * ulp"
  have x0: "x \<noteq> 0"
    using lo by auto
  have ulp: "0 < ulp"
    by (simp add: ulp_def binade_pos)
  have "r - x = (of_int (roundTiesToEven (x / ulp)) - x / ulp) * ulp"
    using ulp by (simp add: r_def left_diff_distrib)
  then have "\<bar>r - x\<bar> = \<bar>of_int (roundTiesToEven (x / ulp)) - x / ulp\<bar> * ulp"
    using ulp by (simp add: abs_mult)
  also have "\<dots> \<le> (1 / 2) * ulp"
    using roundTiesToEven_near [of "x / ulp"] ulp by (intro mult_right_mono) simp_all
  also have "\<dots> = binade x / 2 ^ 53"
    by (simp add: ulp_def)
  also have "\<dots> \<le> \<bar>x\<bar> / 2 ^ 53"
    using binade_le [OF lo] by (simp add: divide_right_mono)
  finally have err: "\<bar>r - x\<bar> \<le> \<bar>x\<bar> / 2 ^ 53" .
  define d where "d = (r - x) / x"
  have rd: "r = x * (1 + d)"
    using x0 by (simp add: d_def field_simps)
  have "\<bar>d\<bar> = \<bar>r - x\<bar> / \<bar>x\<bar>"
    by (simp add: d_def)
  also have "\<dots> \<le> (\<bar>x\<bar> / 2 ^ 53) / \<bar>x\<bar>"
    using err by (simp add: divide_right_mono)
  also have "\<dots> = 1 / 2 ^ 53"
    using x0 by simp
  finally have d: "\<bar>d\<bar> \<le> 1 / 2 ^ 53" .
  have "\<bar>r\<bar> \<le> \<bar>x\<bar> + \<bar>r - x\<bar>"
    by simp
  also have "\<dots> \<le> \<bar>x\<bar> + \<bar>x\<bar> / 2 ^ 53"
    using err by simp
  also have "\<dots> = \<bar>x\<bar> * (1 + 1 / 2 ^ 53)"
    by (simp add: field_simps)
  also have "\<dots> \<le> 2 ^ 1023 * (1 + 1 / 2 ^ 53)"
    using hi by (intro mult_right_mono) simp_all
  also have "\<dots> < 2 ^ 1023 * (2::rat)"
    by (intro mult_strict_left_mono) simp_all
  finally have "\<bar>r\<bar> < 2 ^ 1024"
    by simp
  then have fin: "\<not> 2 ^ 1024 \<le> r" "\<not> r \<le> - (2 ^ 1024)"
    by (simp_all add: abs_if split: if_splits)
  have "toDouble x = Num r"
    using x0 fin unfolding toDouble_def Let_def ulp_def [symmetric] r_def [symmetric] by simp
  then show ?thesis
    using d rd by auto
qed

lemma toDouble_zero: "toDouble 0 = Num 0"
  by (simp add: toDouble_def)

lemma binade_grid:
  assumes "1 / 2 ^ K \<le> \<bar>x\<bar>"
  shows "\<exists>i::nat. binade x = 2 ^ i / 2 ^ K"
proof (cases "1 \<le> \<bar>x\<bar>")
  case True
  then have "binade x = 2 ^ (scale_up x 0 + K) / 2 ^ K"
    by (simp add: binade_def power_add)
  then show ?thesis ..
next
  case False
  have j: "scale_down x 0 \<le> K"
    using scale_down_bound [OF assms, of 0] by simp
  have "(2::rat) ^ K = 2 ^ (K - scale_down x 0) * 2 ^ scale_down x 0"
    using j by (simp add: power_add [symmetric])
  then have "binade x = 2 ^ (K - scale_down x 0) / 2 ^ K"
    using False by (simp add: binade_def field_simps)
  then show ?thesis ..
qed

lemma toDouble_grid:
  assumes "1 / 2 ^ K \<le> \<bar>x\<bar>" and "toDouble x = Num r"
  shows "\<exists>n::int. r = of_int n / 2 ^ (K + 52)"
proof -
  obtain i :: nat where b: "binade x = 2 ^ i / 2 ^ K"
    using binade_grid [OF assms(1)] by blast
  have x0: "x \<noteq> 0"
  proof
    assume "x = 0"
    then have "1 / (2::rat) ^ K \<le> 0"
      using assms(1) by simp
    moreover have "0 < 1 / (2::rat) ^ K"
      by simp
    ultimately show False
      by linarith
  qed
  define m where "m = roundTiesToEven (x / (binade x / 2 ^ 52))"
  have "r = of_int m * (binade x / 2 ^ 52)"
    using assms(2) x0 unfolding toDouble_def Let_def m_def [symmetric]
    by (simp split: if_splits)
  then have "r = of_int (m * 2 ^ i) / 2 ^ (K + 52)"
    by (simp add: b power_add)
  then show ?thesis ..
qed

lemma magnitude_nonzero: "magnitude a b x \<Longrightarrow> x \<noteq> 0"
proof
  assume "magnitude a b x" and "x = 0"
  then have "1 / (2::rat) ^ a \<le> 0"
    by (simp add: magnitude_def)
  moreover have "0 < 1 / (2::rat) ^ a"
    by simp
  ultimately show False
    by linarith
qed

lemma magnitude_mult:
  assumes "magnitude a b x" and "magnitude c d y"
  shows "magnitude (a + c) (b + d) (x * y)"
proof -
  have "1 / 2 ^ a * (1 / 2 ^ c) \<le> \<bar>x\<bar> * \<bar>y\<bar>"
    using assms by (intro mult_mono) (simp_all add: magnitude_def)
  moreover have "\<bar>x\<bar> * \<bar>y\<bar> \<le> 2 ^ b * 2 ^ d"
    using assms by (intro mult_mono) (simp_all add: magnitude_def)
  ultimately show ?thesis
    by (simp add: magnitude_def abs_mult power_add)
qed

lemma magnitude_inverse:
  assumes "magnitude c d y"
  shows "magnitude d c (1 / y)"
proof -
  have y: "0 < \<bar>y\<bar>"
    using magnitude_nonzero [OF assms] by simp
  have "1 / 2 ^ d \<le> 1 / \<bar>y\<bar>"
    using assms y by (simp add: magnitude_def frac_le)
  moreover have "1 / \<bar>y\<bar> \<le> 2 ^ c"
    using assms y by (simp add: magnitude_def field_simps)
  ultimately show ?thesis
    by (simp add: magnitude_def)
qed

lemma magnitude_divide:
  assumes "magnitude a b x" and "magnitude c d y"
  shows "magnitude (a + d) (b + c) (x / y)"
  using magnitude_mult [OF assms(1) magnitude_inverse [OF assms(2)]] by simp

lemma magnitude_weaken:
  assumes "magnitude a b x" and "a \<le> a'" and "b \<le> b'"
  shows "magnitude a' b' x"
proof -
  have "1 / (2::rat) ^ a' \<le> 1 / 2 ^ a"
    using assms(2) by (simp add: frac_le power_increasing)
  moreover have "(2::rat) ^ b \<le> 2 ^ b'"
    using assms(3) by (simp add: power_increasing)
  ultimately show ?thesis
    using assms(1) unfolding magnitude_def by linarith
qed

lemma near_one_bounds:
  assumes "near_one 1 e"
  shows "1 / 2 \<le> e" and "e \<le> 2" and "e \<noteq> 0"
proof -
  have "\<bar>e - 1\<bar> \<le> 1 / 2"
    using assms by (simp add: near_one_def)
  then show "1 / 2 \<le> e" "e \<le> 2" "e \<noteq> 0"
    by (auto simp add: abs_if split: if_splits)
qed

lemma near_one_mult:
  assumes "near_one j a" and "near_one k b" and "j \<le> 2 ^ 53"
  shows "near_one (j + 2 * k) (a * b)"
proof -
  have a: "\<bar>a\<bar> \<le> 2"
  proof -
    have "\<bar>a - 1\<bar> \<le> 1"
      using assms(1,3) by (simp add: near_one_def field_simps)
    then show ?thesis by (auto simp add: abs_if split: if_splits)
  qed
  have "a * b - 1 = a * (b - 1) + (a - 1)"
    by (simp add: algebra_simps)
  then have "\<bar>a * b - 1\<bar> \<le> \<bar>a\<bar> * \<bar>b - 1\<bar> + \<bar>a - 1\<bar>"
    by (metis abs_mult abs_triangle_ineq)
  also have "\<dots> \<le> 2 * (k / 2 ^ 53) + j / 2 ^ 53"
  proof -
    have "\<bar>a\<bar> * \<bar>b - 1\<bar> \<le> 2 * (k / 2 ^ 53)"
      using a assms(2) by (intro mult_mono) (simp_all add: near_one_def)
    then show ?thesis
      using assms(1) by (simp add: near_one_def)
  qed
  finally show ?thesis
    by (simp add: near_one_def add_divide_distrib)
qed

lemma near_one_inverse:
  assumes "near_one 1 e"
  shows "near_one 2 (1 / e)"
proof -
  have e: "1 / 2 \<le> e"
    using near_one_bounds(1) [OF assms] .
  then have pos: "0 < e"
    by simp
  have "1 / e - 1 = (1 - e) / e"
    using pos by (simp add: field_simps)
  then have "\<bar>1 / e - 1\<bar> = \<bar>e - 1\<bar> / e"
    using pos by (simp add: abs_minus_commute)
  also have "\<dots> \<le> (1 / 2 ^ 53) / (1 / 2)"
    using assms e pos by (intro frac_le) (simp_all add: near_one_def)
  finally show ?thesis
    by (simp add: near_one_def)
qed

text \<open>One rounding of a number that is zero or of a magnitude far from the limits of the doubles.\<close>

lemma rounding:
  assumes "x = 0 \<or> magnitude a b x" and "a < a'" and "b < b'" and "a + 52 \<le> Q"
    and "a \<le> 1021" and "b \<le> 1022"
  shows "\<exists>r e. toDouble x = Num r \<and> r = x * e \<and> near_one 1 e
           \<and> (r = 0 \<or> magnitude a' b' r) \<and> (\<exists>n::int. r = of_int n / 2 ^ Q)"
proof (cases "x = 0")
  case True
  have "toDouble x = Num 0 \<and> 0 = x * 1 \<and> near_one 1 1
           \<and> ((0::rat) = 0 \<or> magnitude a' b' 0) \<and> (\<exists>n::int. (0::rat) = of_int n / 2 ^ Q)"
    using True by (simp add: toDouble_zero near_one_def)
  then show ?thesis
    by blast
next
  case False
  then have m: "magnitude a b x"
    using assms(1) by simp
  have lo: "1 / 2 ^ 1022 \<le> \<bar>x\<bar>"
  proof -
    have "magnitude 1022 b x"
      using assms(5) by (intro magnitude_weaken [OF m]) simp_all
    then show ?thesis by (simp add: magnitude_def)
  qed
  have hi: "\<bar>x\<bar> \<le> 2 ^ 1023"
  proof -
    have "magnitude a 1023 x"
      using assms(6) by (intro magnitude_weaken [OF m]) simp_all
    then show ?thesis by (simp add: magnitude_def)
  qed
  obtain d where d: "\<bar>d\<bar> \<le> 1 / 2 ^ 53" and r: "toDouble x = Num (x * (1 + d))"
    using toDouble_rel [OF lo hi] by blast
  have near: "near_one 1 (1 + d)"
    using d by (simp add: near_one_def)
  have e: "magnitude 1 1 (1 + d)"
    using near_one_bounds(1,2) [OF near] by (simp add: magnitude_def abs_if)
  have size: "magnitude a' b' (x * (1 + d))"
    using assms(2,3) by (intro magnitude_weaken [OF magnitude_mult [OF m e]]) simp_all
  obtain n :: int where n: "x * (1 + d) = of_int n / 2 ^ (a + 52)"
    using toDouble_grid [OF _ r, of a] m by (auto simp add: magnitude_def)
  have "(2::rat) ^ Q = 2 ^ (Q - (a + 52)) * 2 ^ (a + 52)"
    using assms(4) by (simp add: power_add [symmetric])
  then have "x * (1 + d) = of_int (n * 2 ^ (Q - (a + 52))) / 2 ^ Q"
    using n by simp
  then have grid: "\<exists>n::int. x * (1 + d) = of_int n / 2 ^ Q" ..
  show ?thesis
    using r near size grid by blast
qed

lemma zero_or_magnitude_mult:
  assumes "x = 0 \<or> magnitude a b x" and "magnitude c d y"
  shows "x * y = 0 \<or> magnitude (a + c) (b + d) (x * y)"
  using assms magnitude_mult [of a b x c d y] by auto

lemma zero_or_magnitude_divide:
  assumes "x = 0 \<or> magnitude a b x" and "magnitude c d y"
  shows "x / y = 0 \<or> magnitude (a + d) (b + c) (x / y)"
  using assms magnitude_divide [of a b x c d y] by auto

lemma near_one_scaled:
  assumes "near_one k e" and "k \<le> 16"
  shows "\<bar>x * e - x\<bar> \<le> \<bar>x\<bar> * (k / 2 ^ 53)"
proof -
  have "x * e - x = x * (e - 1)"
    by (simp add: algebra_simps)
  then have "\<bar>x * e - x\<bar> = \<bar>x\<bar> * \<bar>e - 1\<bar>"
    by (simp add: abs_mult)
  also have "\<dots> \<le> \<bar>x\<bar> * (k / 2 ^ 53)"
    using assms(1) by (intro mult_left_mono) (simp_all add: near_one_def)
  finally show ?thesis .
qed

lemma rounding_nonzero:
  assumes "magnitude a b x" and "a < a'" and "b < b'" and "a + 52 \<le> Q"
    and "a \<le> 1021" and "b \<le> 1022"
  shows "\<exists>r e. toDouble x = Num r \<and> r = x * e \<and> near_one 1 e
           \<and> magnitude a' b' r \<and> (\<exists>n::int. r = of_int n / 2 ^ Q)"
proof -
  have "x = 0 \<or> magnitude a b x"
    using assms(1) by simp
  then obtain r e where r: "toDouble x = Num r" "r = x * e" "near_one 1 e"
    "r = 0 \<or> magnitude a' b' r" "\<exists>n::int. r = of_int n / 2 ^ Q"
    using rounding [OF _ assms(2-6)] by blast
  have "r \<noteq> 0"
    using r(2) magnitude_nonzero [OF assms(1)] near_one_bounds(3) [OF r(3)] by simp
  then show ?thesis
    using r by blast
qed

lemma grid_difference:
  fixes x y :: rat
  assumes "x = of_int m / 2 ^ Q" and "y = of_int n / 2 ^ Q"
  shows "x - y = 0 \<or> 1 / 2 ^ Q \<le> \<bar>x - y\<bar>"
proof (cases "m = n")
  case True
  then show ?thesis
    using assms by simp
next
  case False
  then have "1 \<le> \<bar>m - n\<bar>"
    by simp
  then have "(1::rat) \<le> \<bar>of_int (m - n)\<bar>"
    by (metis of_int_1 of_int_abs of_int_le_iff)
  moreover have "x - y = of_int (m - n) / 2 ^ Q"
    using assms by (simp add: diff_divide_distrib)
  ultimately have "1 / 2 ^ Q \<le> \<bar>x - y\<bar>"
    by (simp add: divide_right_mono)
  then show ?thesis ..
qed

text \<open>An integer below \<open>2 ^ 53\<close> in absolute value is a double: rounding leaves it as it is.\<close>

lemma roundTiesToEven_of_int: "roundTiesToEven (of_int k) = k"
  by (simp add: roundTiesToEven_def)

lemma power_two_quotient:
  assumes "e \<le> K"
  shows "(2::rat) ^ e / 2 ^ K = 1 / 2 ^ (K - e)"
proof -
  have "(2::rat) ^ K = 2 ^ (K - e) * 2 ^ e"
    using assms by (simp add: power_add [symmetric])
  then show ?thesis
    by simp
qed

lemma toDouble_of_int:
  assumes "\<bar>n\<bar> < 2 ^ 53"
  shows "toDouble (of_int n) = Num (of_int n)"
proof (cases "n = 0")
  case True
  then show ?thesis
    by (simp add: toDouble_zero)
next
  case False
  define x :: rat where "x = of_int n"
  define e where "e = scale_up x 0"
  have x0: "x \<noteq> 0"
    using False by (simp add: x_def)
  have big: "1 \<le> \<bar>x\<bar>"
  proof -
    have "1 \<le> \<bar>n\<bar>"
      using False by simp
    then have "(1::rat) \<le> of_int \<bar>n\<bar>"
      by (metis of_int_1 of_int_le_iff)
    then show ?thesis
      by (simp add: x_def)
  qed
  have small: "\<bar>x\<bar> < 2 ^ 53"
  proof -
    have "(of_int \<bar>n\<bar> :: rat) < of_int (2 ^ 53)"
      using assms by (simp only: of_int_less_iff)
    then show ?thesis
      by (simp add: x_def)
  qed
  have "(2::rat) ^ e \<le> \<bar>x\<bar>"
    unfolding e_def using big by (intro scale_up_le) simp
  then have "(2::rat) ^ e < 2 ^ 53"
    using small by linarith
  then have "e < 53"
    by (simp only: power_strict_increasing_iff one_less_numeral_iff semiring_norm)
  then have e: "e \<le> 52"
    by simp
  have b: "binade x = 2 ^ e"
    using big by (simp add: binade_def e_def)
  have ulp: "binade x / 2 ^ 52 = 1 / 2 ^ (52 - e)"
    unfolding b using e by (rule power_two_quotient)
  have scaled: "x / (1 / 2 ^ (52 - e)) = of_int (n * 2 ^ (52 - e))"
    by (simp add: x_def)
  have r: "of_int (roundTiesToEven (x / (1 / 2 ^ (52 - e)))) * (1 / 2 ^ (52 - e)) = x"
    unfolding scaled roundTiesToEven_of_int by (simp add: x_def)
  have fin: "\<not> 2 ^ 1024 \<le> x" "\<not> x \<le> - (2 ^ 1024)"
  proof -
    have "(2::rat) ^ 53 \<le> 2 ^ 1024"
      by (intro power_increasing) simp_all
    then have "\<bar>x\<bar> < 2 ^ 1024"
      using small by linarith
    then show "\<not> 2 ^ 1024 \<le> x" "\<not> x \<le> - (2 ^ 1024)"
      by (simp_all add: abs_if split: if_splits)
  qed
  have "toDouble x = Num x"
    using x0 fin unfolding toDouble_def Let_def ulp r by simp
  then show ?thesis
    by (simp add: x_def)
qed

section \<open>GeometryMath: results\<close>

lemma js_or_Num_zero: "js_or (Num x) (Num 0) = Num x"
  by (simp add: js_or_def)

lemmas geometry_eval = computeThumbSize_def computeThumbOffset_def computeScrollForOffset_def
  js_or_def js_and_def js_sub_def inf_of_sign_def strict_eq_def double_eval

text \<open>
  The model against the language on inputs where the rounding shows:
  \<open>computeThumbOffset(100, 30, 500, 100, 1)\<close> is \<open>0.17500000000000002\<close>,
  \<open>computeScrollForOffset(100, 30, 35, 500, 100)\<close> is \<open>114.28571428571428\<close> and
  \<open>0.1 + 0.2\<close> is \<open>0.30000000000000004\<close>, each written as the fraction the double denotes.
\<close>

lemma rounded_examples:
  "computeThumbOffset (Num 100) (Num 30) (Num 500) (Num 100) (Num 1)
     = Num (6305039478318695 / 36028797018963968)"
  "computeScrollForOffset (Num 100) (Num 30) (Num 35) (Num 500) (Num 100)
     = Num (2010535547933257 / 17592186044416)"
  "js_add (js_div (Num 1) (Num 10)) (js_div (Num 2) (Num 10))
     = Num (1351079888211149 / 4503599627370496)"
  by (simp_all add: geometry_eval)

text \<open>
  C1. The claim: the three functions return a finite number for every input, and a zero
  denominator makes the result fall back to \<open>0\<close>. The code does not do that: \<open>|| 0\<close>
  replaces \<open>NaN\<close> (from \<open>0 / 0\<close>) but an infinity is truthy and passes through. With
  \<open>scrollableSize = viewportSize\<close> and a non-zero scroll value \<open>computeThumbOffset\<close> returns
  \<open>Infinity\<close>; with \<open>trackSize = thumbSize\<close> so does \<open>computeScrollForOffset\<close>; with
  \<open>scrollableSize = 0\<close> so does \<open>computeThumbSize\<close>. The second case is within reach of
  the component: a click at offset 20 on a track as long as its thumb assigns \<open>Infinity\<close>
  to \<open>scrollLeft\<close>.
\<close>

theorem geometry_division_by_zero_gives_infinity:
  "computeThumbOffset (Num 100) (Num 30) (Num 100) (Num 100) (Num 50) = PosInf
   \<and> computeScrollForOffset (Num 30) (Num 30) (Num 20) (Num 500) (Num 100) = PosInf
   \<and> computeThumbSize (Num 100) (Num 0) (Num 100) (Num 30) = PosInf
   \<and> map_sum id (\<lambda>d. map_option el_scrollLeft (contentEl d))
        (handleTrackClick TYPE_X (Num 20) narrow) = Inr (Some PosInf)"
proof -
  have statics:
    "computeThumbOffset (Num 100) (Num 30) (Num 100) (Num 100) (Num 50) = PosInf"
    "computeScrollForOffset (Num 30) (Num 30) (Num 20) (Num 500) (Num 100) = PosInf"
    "computeThumbSize (Num 100) (Num 0) (Num 100) (Num 30) = PosInf"
    by (simp_all add: geometry_eval)
  have click: "map_sum id (\<lambda>d. map_option el_scrollLeft (contentEl d))
        (handleTrackClick TYPE_X (Num 20) narrow) = Inr (Some PosInf)"
    by (simp add: handleTrackClick_def scrollForOffsetX_def jumpTo_def narrow_def demo_defs
        geometry_eval)
  show ?thesis
    using statics click by simp
qed

text \<open>
  C2, as stated: feeding the offset of \<open>computeThumbOffset\<close> to \<open>computeScrollForOffset\<close>
  gives back the scroll value up to the rounding of the \<open>ceil\<close> of the thumb size. The
  \<open>ceil\<close> moves the thumb size by less than one pixel. On the specification's own
  geometry (track 100, thumb 30, content 500, viewport 100, scroll value 200) one pixel of
  the track is worth \<open>400 / 70\<close>, less than 6, scroll pixels, and the result,
  \<open>114.28571428571428\<close>, is more than 85 scroll pixels away from 200.
\<close>

theorem round_trip_not_within_tolerance:
  "\<not> reproduces_within 85
       (computeScrollForOffset (Num 100) (Num 30)
          (computeThumbOffset (Num 100) (Num 30) (Num 500) (Num 100) (Num 200))
          (Num 500) (Num 100))
       200"
  by (simp add: geometry_eval)

text \<open>
  C2, amended: for a geometry whose scrollable range \<open>scrollableSize - viewportSize\<close>,
  free track length \<open>trackSize - thumbSize\<close> and thumb size are moderate (so neither zero
  nor near the limits of the doubles) and whose scroll value is zero or moderate, the
  round trip returns the scroll value shifted down by the scroll distance of half a
  thumb, \<open>(thumbSize / 2) * (scrollableSize - viewportSize) / (trackSize - thumbSize)\<close>,
  because \<open>computeScrollForOffset\<close> centres the pointer on the thumb. It does so up to the
  rounding of the eight floating-point operations on the way: the result is within
  \<open>2 ^ -49\<close> of the scroll value and the shift taken together.
\<close>

theorem round_trip_shifted_by_half_thumb:
  assumes D1: "moderate (S - V)" and D2: "moderate (T - t)" and t: "moderate t"
    and v: "v = 0 \<or> moderate v"
  shows "reproduces_within ((\<bar>v\<bar> + \<bar>t / 2 * (S - V) / (T - t)\<bar>) / 2 ^ 49)
           (computeScrollForOffset (Num T) (Num t)
              (computeThumbOffset (Num T) (Num t) (Num S) (Num V) (Num v)) (Num S) (Num V))
           (v - t / 2 * (S - V) / (T - t))"
proof -
  define shift where "shift = t / 2 * (S - V) / (T - t)"
  have D1m: "magnitude 100 100 (S - V)" and D2m: "magnitude 100 100 (T - t)"
    and tm: "magnitude 100 100 t" and vm: "v = 0 \<or> magnitude 100 100 v"
    using D1 D2 t v by (simp_all add: moderate_def)
  have D1z: "S - V \<noteq> 0" and D2z: "T - t \<noteq> 0" and tz: "t \<noteq> 0"
    using D1m D2m tm magnitude_nonzero by blast+
  have "\<exists>d1 e1. toDouble (S - V) = Num d1 \<and> d1 = (S - V) * e1 \<and> near_one 1 e1
           \<and> magnitude 101 101 d1 \<and> (\<exists>n::int. d1 = of_int n / 2 ^ 152)"
    by (rule rounding_nonzero [OF D1m]) simp_all
  then obtain d1 e1 where d1: "toDouble (S - V) = Num d1" and d1e: "d1 = (S - V) * e1"
    and e1: "near_one 1 e1" and d1m: "magnitude 101 101 d1"
    by blast
  have "\<exists>d2 e2. toDouble (T - t) = Num d2 \<and> d2 = (T - t) * e2 \<and> near_one 1 e2
           \<and> magnitude 101 101 d2 \<and> (\<exists>n::int. d2 = of_int n / 2 ^ 152)"
    by (rule rounding_nonzero [OF D2m]) simp_all
  then obtain d2 e2 where d2: "toDouble (T - t) = Num d2" and d2e: "d2 = (T - t) * e2"
    and e2: "near_one 1 e2" and d2m: "magnitude 101 101 d2"
    by blast
  have d1z: "d1 \<noteq> 0" and d2z: "d2 \<noteq> 0" and e2z: "e2 \<noteq> 0"
    using magnitude_nonzero [OF d1m] magnitude_nonzero [OF d2m] near_one_bounds(3) [OF e2] by simp_all
  have "v / d1 = 0 \<or> magnitude 201 201 (v / d1)"
    using zero_or_magnitude_divide [OF vm d1m] by simp
  then have "\<exists>q1 e3. toDouble (v / d1) = Num q1 \<and> q1 = v / d1 * e3 \<and> near_one 1 e3
           \<and> (q1 = 0 \<or> magnitude 202 202 q1) \<and> (\<exists>n::int. q1 = of_int n / 2 ^ 253)"
    by (rule rounding) simp_all
  then obtain q1 e3 where q1: "toDouble (v / d1) = Num q1" and q1e: "q1 = v / d1 * e3"
    and e3: "near_one 1 e3" and q1m: "q1 = 0 \<or> magnitude 202 202 q1"
    by blast
  have "q1 * d2 = 0 \<or> magnitude 303 303 (q1 * d2)"
    using zero_or_magnitude_mult [OF q1m d2m] by simp
  then have "\<exists>off e4. toDouble (q1 * d2) = Num off \<and> off = q1 * d2 * e4 \<and> near_one 1 e4
           \<and> (off = 0 \<or> magnitude 304 304 off) \<and> (\<exists>n::int. off = of_int n / 2 ^ 355)"
    by (rule rounding) simp_all
  then obtain off e4 n4 where off: "toDouble (q1 * d2) = Num off" and offe: "off = q1 * d2 * e4"
    and e4: "near_one 1 e4" and offm: "off = 0 \<or> magnitude 304 304 off"
    and offg: "off = of_int n4 / 2 ^ 355"
    by blast
  have offset: "computeThumbOffset (Num T) (Num t) (Num S) (Num V) (Num v) = Num off"
    using d1 d2 q1 off d1z tz
    by (simp add: computeThumbOffset_def js_sub_def js_and_def js_or_Num_zero)
  have "magnitude 101 100 (t / 2)"
    using tm by (simp add: magnitude_def)
  then have "\<exists>h e5. toDouble (t / 2) = Num h \<and> h = t / 2 * e5 \<and> near_one 1 e5
           \<and> magnitude 102 101 h \<and> (\<exists>n::int. h = of_int n / 2 ^ 355)"
    by (rule rounding_nonzero) simp_all
  then obtain h e5 n5 where h: "toDouble (t / 2) = Num h" and he: "h = t / 2 * e5"
    and e5: "near_one 1 e5" and hm: "magnitude 102 101 h" and hg: "h = of_int n5 / 2 ^ 355"
    by blast
  have "\<bar>off\<bar> \<le> 2 ^ 304"
    using offm by (auto simp add: magnitude_def)
  moreover have "\<bar>h\<bar> \<le> 2 ^ 101"
    using hm by (simp add: magnitude_def)
  ultimately have "\<bar>off - h\<bar> \<le> 2 ^ 304 + 2 ^ 101"
    by linarith
  also have "\<dots> \<le> (2::rat) ^ 305"
    by simp
  finally have "off - h = 0 \<or> magnitude 355 305 (off - h)"
    using grid_difference [OF offg hg] by (auto simp add: magnitude_def)
  then have "\<exists>c e6. toDouble (off - h) = Num c \<and> c = (off - h) * e6 \<and> near_one 1 e6
           \<and> (c = 0 \<or> magnitude 356 306 c) \<and> (\<exists>n::int. c = of_int n / 2 ^ 407)"
    by (rule rounding) simp_all
  then obtain c e6 where c: "toDouble (off - h) = Num c" and ce: "c = (off - h) * e6"
    and e6: "near_one 1 e6" and cm: "c = 0 \<or> magnitude 356 306 c"
    by blast
  have "c / d2 = 0 \<or> magnitude 457 407 (c / d2)"
    using zero_or_magnitude_divide [OF cm d2m] by simp
  then have "\<exists>q2 e7. toDouble (c / d2) = Num q2 \<and> q2 = c / d2 * e7 \<and> near_one 1 e7
           \<and> (q2 = 0 \<or> magnitude 458 408 q2) \<and> (\<exists>n::int. q2 = of_int n / 2 ^ 509)"
    by (rule rounding) simp_all
  then obtain q2 e7 where q2: "toDouble (c / d2) = Num q2" and q2e: "q2 = c / d2 * e7"
    and e7: "near_one 1 e7" and q2m: "q2 = 0 \<or> magnitude 458 408 q2"
    by blast
  have "q2 * d1 = 0 \<or> magnitude 559 509 (q2 * d1)"
    using zero_or_magnitude_mult [OF q2m d1m] by simp
  then have "\<exists>r e8. toDouble (q2 * d1) = Num r \<and> r = q2 * d1 * e8 \<and> near_one 1 e8
           \<and> (r = 0 \<or> magnitude 560 510 r) \<and> (\<exists>n::int. r = of_int n / 2 ^ 611)"
    by (rule rounding) simp_all
  then obtain r e8 where r: "toDouble (q2 * d1) = Num r" and re: "r = q2 * d1 * e8"
    and e8: "near_one 1 e8"
    by blast
  have returned: "computeScrollForOffset (Num T) (Num t) (Num off) (Num S) (Num V) = Num r"
    using d1 d2 h c q2 r d2z
    by (simp add: computeScrollForOffset_def js_sub_def js_or_Num_zero)
  define A where "A = e3 * e4 * e6 * e7 * e8"
  define B where "B = e5 * e1 * (1 / e2) * e6 * e7 * e8"
  have A: "near_one 9 A"
    unfolding A_def
    using near_one_mult [OF near_one_mult [OF near_one_mult [OF near_one_mult [OF e3 e4] e6] e7] e8]
    by simp
  have B: "near_one 13 B"
    unfolding B_def
    using near_one_mult [OF near_one_mult [OF near_one_mult [OF near_one_mult [OF
          near_one_mult [OF e5 e1] near_one_inverse [OF e2]] e6] e7] e8]
    by simp
  have first: "off / d2 * d1 = v * (e3 * e4)"
    using d1z d2z by (simp add: offe q1e)
  have second: "h / d2 * d1 = shift * (e5 * e1 * (1 / e2))"
  proof -
    define P where "P = S - V"
    define R where "R = T - t"
    have "R \<noteq> 0"
      using D2z by (simp add: R_def)
    then have "t / 2 * e5 / (R * e2) * (P * e1) = t / 2 * P / R * (e5 * e1 * (1 / e2))"
      using e2z by (simp add: field_simps)
    then show ?thesis
      unfolding he d1e d2e shift_def P_def R_def .
  qed
  have "r = (off / d2 * d1 - h / d2 * d1) * (e6 * e7 * e8)"
    by (simp add: re q2e ce algebra_simps diff_divide_distrib)
  then have collected: "r = v * A - shift * B"
    unfolding first second A_def B_def by (simp add: algebra_simps)
  have "r - (v - shift) = (v * A - v) - (shift * B - shift)"
    by (simp add: collected)
  then have "\<bar>r - (v - shift)\<bar> \<le> \<bar>v * A - v\<bar> + \<bar>shift * B - shift\<bar>"
    by simp
  also have "\<dots> \<le> \<bar>v\<bar> * (9 / 2 ^ 53) + \<bar>shift\<bar> * (13 / 2 ^ 53)"
    using near_one_scaled [OF A, of v] near_one_scaled [OF B, of shift] by simp
  also have "\<dots> \<le> \<bar>v\<bar> * (16 / 2 ^ 53) + \<bar>shift\<bar> * (16 / 2 ^ 53)"
    by (intro add_mono mult_left_mono) simp_all
  also have "\<dots> = (\<bar>v\<bar> + \<bar>shift\<bar>) / 2 ^ 49"
    by (simp add: field_simps)
  finally have "\<bar>r - (v - shift)\<bar> \<le> (\<bar>v\<bar> + \<bar>shift\<bar>) / 2 ^ 49" .
  then show ?thesis
    unfolding offset returned shift_def by simp
qed

theorem round_trip_shifted_by_half_thumb_witness:
  "reproduces_within (2000 / 7 / 2 ^ 49)
     (computeScrollForOffset (Num 100) (Num 30)
        (computeThumbOffset (Num 100) (Num 30) (Num 500) (Num 100) (Num 200)) (Num 500) (Num 100))
     (800 / 7)"
  using round_trip_shifted_by_half_thumb [of 500 100 100 30 200]
  by (simp add: moderate_def magnitude_def)

text \<open>
  C3, as stated: \<open>computeThumbSize\<close> returns \<open>0\<close> when \<open>scrollableSize\<close> is \<open>0\<close> or when the
  proportional size \<open>ceil(trackSize * viewportSize / scrollableSize)\<close> equals \<open>trackSize\<close>,
  and the maximum of that size and \<open>minimalSize\<close> otherwise (\<open>stated_thumbSize\<close>). Two
  inputs say otherwise. With \<open>scrollableSize = 0\<close> and \<open>viewportSize = 0\<close> the code computes
  \<open>NaN || 0\<close>, which is \<open>0\<close>, and then clamps it like any other size: it returns
  \<open>minimalSize\<close>, here 30. And the code computes \<open>(viewportSize / scrollableSize) *
  trackSize\<close> in doubles: for a track of 152, a content of 304 and a viewport of 168 the
  quotient is rounded, the product is \<open>84.00000000000001\<close> and the result is 85, where
  \<open>ceil(152 * 168 / 304)\<close> is 84.
\<close>

theorem computeThumbSize_differs_from_stated:
  "computeThumbSize (Num 100) (Num 0) (Num 0) (Num 30) \<noteq> Num (stated_thumbSize 100 0 0 30)
   \<and> computeThumbSize (Num 152) (Num 304) (Num 168) (Num 30)
       \<noteq> Num (stated_thumbSize 152 304 168 30)"
  by (simp add: stated_thumbSize_def geometry_eval)

text \<open>
  C3, amended: for a moderate \<open>trackSize\<close> and \<open>scrollableSize\<close> and a \<open>viewportSize\<close> that is
  zero or moderate, the proportional size is \<open>ceil(p)\<close>, where \<open>p\<close> is the product
  \<open>(viewportSize / scrollableSize) * trackSize\<close> as the doubles give it, within the relative
  error \<open>2 ^ -51\<close> of \<open>trackSize * viewportSize / scrollableSize\<close>; \<open>computeThumbSize\<close> returns
  \<open>0\<close> when that size equals \<open>trackSize\<close> and the maximum of that size and \<open>minimalSize\<close>
  otherwise. When \<open>scrollableSize\<close> and \<open>viewportSize\<close> are both \<open>0\<close> the proportional size
  is \<open>0\<close>. (Nothing is said of \<open>scrollableSize = 0\<close> with \<open>viewportSize \<noteq> 0\<close>.)
  \<open>computeThumbSize(100, 500, 100, 30)\<close> is 30, \<open>computeThumbSize(100, 100, 100, 30)\<close> is 0
  and \<open>computeThumbSize(152, 304, 168, 30)\<close> is 85.
\<close>

theorem computeThumbSize_proportional:
  assumes T: "moderate T" and S: "moderate S" and V: "V = 0 \<or> moderate V"
  shows "(\<exists>p. js_mul (js_div (Num V) (Num S)) (Num T) = Num p
            \<and> \<bar>p - T * V / S\<bar> \<le> \<bar>T * V / S\<bar> / 2 ^ 51
            \<and> computeThumbSize (Num T) (Num S) (Num V) (Num m)
                = (if of_int \<lceil>p\<rceil> = T then Num 0 else Num (max (of_int \<lceil>p\<rceil>) m)))
       \<and> computeThumbSize (Num T0) (Num 0) (Num 0) (Num m0)
           = (if T0 = 0 then Num 0 else Num (max 0 m0))
       \<and> computeThumbSize (Num 100) (Num 500) (Num 100) (Num 30) = Num 30
       \<and> computeThumbSize (Num 100) (Num 100) (Num 100) (Num 30) = Num 0
       \<and> computeThumbSize (Num 152) (Num 304) (Num 168) (Num 30) = Num 85"
proof -
  have S0: "S \<noteq> 0"
    using S magnitude_nonzero by (auto simp add: moderate_def)
  have V': "V = 0 \<or> magnitude 100 100 V" and S': "magnitude 100 100 S" and T': "magnitude 100 100 T"
    using V S T by (simp_all add: moderate_def)
  have ratio: "V / S = 0 \<or> magnitude 200 200 (V / S)"
    using zero_or_magnitude_divide [OF V' S'] by simp
  have "\<exists>q e1. toDouble (V / S) = Num q \<and> q = V / S * e1 \<and> near_one 1 e1
           \<and> (q = 0 \<or> magnitude 201 201 q) \<and> (\<exists>n::int. q = of_int n / 2 ^ 252)"
    by (rule rounding [OF ratio]) simp_all
  then obtain q e1 where q: "toDouble (V / S) = Num q" and qe: "q = V / S * e1" and e1: "near_one 1 e1"
    and qm: "q = 0 \<or> magnitude 201 201 q"
    by blast
  have prod: "q * T = 0 \<or> magnitude 301 301 (q * T)"
    using zero_or_magnitude_mult [OF qm T'] by simp
  have "\<exists>p e2. toDouble (q * T) = Num p \<and> p = q * T * e2 \<and> near_one 1 e2
           \<and> (p = 0 \<or> magnitude 302 302 p) \<and> (\<exists>n::int. p = of_int n / 2 ^ 353)"
    by (rule rounding [OF prod]) simp_all
  then obtain p e2 where p: "toDouble (q * T) = Num p" and pe: "p = q * T * e2" and e2: "near_one 1 e2"
    by blast
  have product: "js_mul (js_div (Num V) (Num S)) (Num T) = Num p"
    using S0 q p by simp
  have "p = T * V / S * (e1 * e2)"
    by (simp add: pe qe)
  moreover have "near_one 3 (e1 * e2)"
    using near_one_mult [OF e1 e2] by simp
  ultimately have "\<bar>p - T * V / S\<bar> \<le> \<bar>T * V / S\<bar> * (3 / 2 ^ 53)"
    using near_one_scaled [of 3 "e1 * e2" "T * V / S"] by simp
  also have "\<dots> \<le> \<bar>T * V / S\<bar> * (1 / 2 ^ 51)"
    by (intro mult_left_mono) simp_all
  finally have close: "\<bar>p - T * V / S\<bar> \<le> \<bar>T * V / S\<bar> / 2 ^ 51"
    by simp
  have result: "computeThumbSize (Num T) (Num S) (Num V) (Num m)
                = (if of_int \<lceil>p\<rceil> = T then Num 0 else Num (max (of_int \<lceil>p\<rceil>) m))"
    unfolding computeThumbSize_def product by (auto simp add: js_or_Num_zero strict_eq_def Let_def)
  have both_zero: "computeThumbSize (Num T0) (Num 0) (Num 0) (Num m0)
           = (if T0 = 0 then Num 0 else Num (max 0 m0))"
    by (auto simp add: computeThumbSize_def js_or_def inf_of_sign_def strict_eq_def)
  have examples: "computeThumbSize (Num 100) (Num 500) (Num 100) (Num 30) = Num 30"
    "computeThumbSize (Num 100) (Num 100) (Num 100) (Num 30) = Num 0"
    "computeThumbSize (Num 152) (Num 304) (Num 168) (Num 30) = Num 85"
    by (simp_all add: computeThumbSize_def js_or_def strict_eq_def double_eval)
  show ?thesis
    using product close result both_zero examples by blast
qed

theorem computeThumbSize_proportional_witness:
  "(\<exists>p. js_mul (js_div (Num 168) (Num 304)) (Num 152) = Num p
        \<and> \<bar>p - 152 * 168 / 304\<bar> \<le> \<bar>152 * 168 / 304\<bar> / 2 ^ 51
        \<and> computeThumbSize (Num 152) (Num 304) (Num 168) (Num 30)
            = (if of_int \<lceil>p\<rceil> = (152::rat) then Num 0 else Num (max (of_int \<lceil>p\<rceil>) 30)))
   \<and> computeThumbSize (Num 100) (Num 0) (Num 0) (Num 30) = Num 30"
proof -
  have sizes: "moderate 152" "moderate 304" "168 = 0 \<or> moderate 168"
    by (simp_all add: moderate_def magnitude_def)
  note facts = computeThumbSize_proportional [OF sizes, of 30 100 30]
  have rounded: "\<exists>p. js_mul (js_div (Num 168) (Num 304)) (Num 152) = Num p
        \<and> \<bar>p - 152 * 168 / 304\<bar> \<le> \<bar>152 * 168 / 304\<bar> / 2 ^ 51
        \<and> computeThumbSize (Num 152) (Num 304) (Num 168) (Num 30)
            = (if of_int \<lceil>p\<rceil> = (152::rat) then Num 0 else Num (max (of_int \<lceil>p\<rceil>) 30))"
    using facts by (rule conjunct1)
  have both_zero: "computeThumbSize (Num 100) (Num 0) (Num 0) (Num 30) = Num 30"
    using facts [THEN conjunct2, THEN conjunct1] by simp
  show ?thesis
    using rounded both_zero by (rule conjI)
qed

section \<open>The synchronization pass: results\<close>

text \<open>What each step of a pass leaves alone, and what it writes.\<close>

lemma maskBit_nonzero: "maskBit m k \<Longrightarrow> m \<noteq> 0"
  by (auto simp add: maskBit_def)

lemma updateTrackY_frame:
  assumes "updateTrackY m cur c = Inr c'"
  shows "scrollValues c' = scrollValues c \<and> effects c' = effects c \<and> props c' = props c
       \<and> state c' = state c \<and> contentEl c' = contentEl c \<and> trackXEl c' = trackXEl c
       \<and> thumbXEl c' = thumbXEl c \<and> holderEl c' = holderEl c \<and> wrapperEl c' = wrapperEl c
       \<and> timeout c' = timeout c"
  using assms
  by (auto simp add: updateTrackY_def Let_def split: option.splits if_splits)

lemma updateTrackX_frame:
  assumes "updateTrackX m cur c = Inr c'"
  shows "scrollValues c' = scrollValues c \<and> effects c' = effects c \<and> props c' = props c
       \<and> state c' = state c \<and> contentEl c' = contentEl c \<and> trackYEl c' = trackYEl c
       \<and> thumbYEl c' = thumbYEl c \<and> holderEl c' = holderEl c \<and> wrapperEl c' = wrapperEl c
       \<and> timeout c' = timeout c"
  using assms
  by (auto simp add: updateTrackX_def Let_def split: option.splits if_splits)

lemma updateHolder_frame:
  assumes "updateHolder m cur c = Inr c'"
  shows "scrollValues c' = scrollValues c \<and> effects c' = effects c \<and> props c' = props c
       \<and> state c' = state c \<and> contentEl c' = contentEl c \<and> trackYEl c' = trackYEl c
       \<and> thumbYEl c' = thumbYEl c \<and> trackXEl c' = trackXEl c \<and> thumbXEl c' = thumbXEl c
       \<and> wrapperEl c' = wrapperEl c \<and> timeout c' = timeout c"
  using assms
  by (auto simp add: updateHolder_def split: option.splits if_splits)

lemma updateTrackY_thumb:
  assumes "updateTrackY m cur c = Inr c'" and "trackYEl c = Some tr" and "thumbYEl c = Some th"
    and "axisYChanged m"
  shows "thumbYEl c' = Some (placeThumbY (props c) cur (tr_innerHeight tr) th)"
  using assms
  by (auto simp add: updateTrackY_def Let_def split: if_splits)

lemma updateTrackX_thumb:
  assumes "updateTrackX m cur c = Inr c'" and "trackXEl c = Some tr" and "thumbXEl c = Some th"
    and "axisXChanged m"
  shows "thumbXEl c' = Some (placeThumbX (props c) (state c) cur (tr_innerWidth tr) th)"
  using assms
  by (auto simp add: updateTrackX_def Let_def split: if_splits)

lemma notifyScroll_frame:
  "scrollValues (notifyScroll prev c) = scrollValues c \<and> props (notifyScroll prev c) = props c
   \<and> state (notifyScroll prev c) = state c \<and> contentEl (notifyScroll prev c) = contentEl c
   \<and> thumbYEl (notifyScroll prev c) = thumbYEl c \<and> thumbXEl (notifyScroll prev c) = thumbXEl c"
  by (simp add: notifyScroll_def)

lemma commit_steps:
  assumes "commit m cur c = Inr (c', sv)"
  shows "\<exists>c2 c3 c4. updateTrackY m cur (c\<lparr>scrollValues := cur\<rparr>) = Inr c2
           \<and> updateTrackX m cur c2 = Inr c3 \<and> updateHolder m cur c3 = Inr c4
           \<and> c' = notifyScroll (scrollValues c) c4 \<and> sv = scrollValues c'"
  using assms by (auto simp add: commit_def Let_def split: sum.splits)


lemma commit_thumbY:
  assumes "commit m cur c = Inr (c', sv)" and "trackYEl c = Some tr" and "thumbYEl c = Some th"
    and "axisYChanged m"
  shows "thumbYEl c' = Some (placeThumbY (props c) cur (tr_innerHeight tr) th)"
proof -
  obtain c2 c3 c4 where y: "updateTrackY m cur (c\<lparr>scrollValues := cur\<rparr>) = Inr c2"
    and x: "updateTrackX m cur c2 = Inr c3" and h: "updateHolder m cur c3 = Inr c4"
    and n: "c' = notifyScroll (scrollValues c) c4"
    using commit_steps [OF assms(1)] by blast
  have "thumbYEl c' = thumbYEl c2"
    using updateTrackX_frame [OF x] updateHolder_frame [OF h] n by (simp add: notifyScroll_frame)
  then show ?thesis
    using updateTrackY_thumb [OF y, of tr th] assms(2,3,4) by simp
qed

lemma commit_thumbX:
  assumes "commit m cur c = Inr (c', sv)" and "trackXEl c = Some tr" and "thumbXEl c = Some th"
    and "axisXChanged m"
  shows "thumbXEl c' = Some (placeThumbX (props c) (state c) cur (tr_innerWidth tr) th)"
proof -
  obtain c2 c3 c4 where y: "updateTrackY m cur (c\<lparr>scrollValues := cur\<rparr>) = Inr c2"
    and x: "updateTrackX m cur c2 = Inr c3" and h: "updateHolder m cur c3 = Inr c4"
    and n: "c' = notifyScroll (scrollValues c) c4"
    using commit_steps [OF assms(1)] by blast
  have same: "thumbXEl c' = thumbXEl c3"
    using updateHolder_frame [OF h] n by (simp add: notifyScroll_frame)
  have before: "trackXEl c2 = Some tr" "thumbXEl c2 = Some th" "props c2 = props c" "state c2 = state c"
    using updateTrackY_frame [OF y] assms(2,3) by simp_all
  show ?thesis
    using updateTrackX_thumb [OF x before(1) before(2) assms(4)] same before(3,4) by simp
qed

lemma update_direct:
  assumes "st_isRtl (state c) = Some isRtl" and "contentEl c = Some el"
    and "cur = sample (props c) isRtl el" and "msk = changeMask (scrollValues c) cur"
    and "\<not> maskBit msk 10" and "\<not> maskBit msk 11" and "msk \<noteq> 0 \<or> forced"
  shows "update forced c = commit msk cur c"
  using assms by (auto simp add: update.simps [of forced c] Let_def)

lemma storeVisibility_frame:
  "props (storeVisibility cur c) = props c \<and> state (storeVisibility cur c) = state c
   \<and> contentEl (storeVisibility cur c) = contentEl c
   \<and> trackYEl (storeVisibility cur c) = trackYEl c \<and> thumbYEl (storeVisibility cur c) = thumbYEl c
   \<and> trackXEl (storeVisibility cur c) = trackXEl c \<and> thumbXEl (storeVisibility cur c) = thumbXEl c"
  by (simp add: storeVisibility_def)

lemma rerun_mask:
  "maskBit (changeMask (scrollValues (storeVisibility cur c)) cur) k =
     (k \<noteq> 10 \<and> k \<noteq> 11 \<and> maskBit (changeMask (scrollValues c) cur) k)"
  by (auto simp add: maskBit_changeMask storeVisibility_def)

lemma update_rerun:
  assumes "st_isRtl (state c) = Some isRtl" and "contentEl c = Some el"
    and "cur = sample (props c) isRtl el"
    and "maskBit (changeMask (scrollValues c) cur) 10 \<or> maskBit (changeMask (scrollValues c) cur) 11"
  shows "update forced c = update True (storeVisibility cur c)"
    and "update True (storeVisibility cur c)
         = commit (changeMask (scrollValues (storeVisibility cur c)) cur) cur (storeVisibility cur c)"
proof -
  have nz: "changeMask (scrollValues c) cur \<noteq> 0"
    using assms(4) maskBit_nonzero by blast
  show "update forced c = update True (storeVisibility cur c)"
    using assms nz by (simp add: update.simps [of forced c] Let_def)
  show "update True (storeVisibility cur c)
         = commit (changeMask (scrollValues (storeVisibility cur c)) cur) cur (storeVisibility cur c)"
    using assms(1,2,3)
    by (subst update.simps) (simp add: Let_def storeVisibility_frame rerun_mask)
qed


lemma sample_fields:
  "ToNumber (sv_scrollHeight (sample p isRtl el)) = el_scrollHeight el"
  "ToNumber (sv_clientHeight (sample p isRtl el)) = el_clientHeight el"
  "ToNumber (sv_scrollTop (sample p isRtl el)) = el_scrollTop el"
  "ToNumber (sv_scrollWidth (sample p isRtl el)) = el_scrollWidth el"
  "ToNumber (sv_clientWidth (sample p isRtl el)) = el_clientWidth el"
  "ToNumber (sv_scrollLeft (sample p isRtl el)) = el_scrollLeft el"
  by (simp_all add: sample_def Let_def)

lemma axisYChanged_nonzero: "axisYChanged m \<Longrightarrow> m \<noteq> 0"
  using maskBit_nonzero by (auto simp add: axisYChanged_def)

lemma axisXChanged_nonzero: "axisXChanged m \<Longrightarrow> m \<noteq> 0"
  using maskBit_nonzero by (auto simp add: axisXChanged_def)

lemma rerun_axis:
  "axisYChanged (changeMask (scrollValues (storeVisibility cur c)) cur)
     = axisYChanged (changeMask (scrollValues c) cur)"
  "axisXChanged (changeMask (scrollValues (storeVisibility cur c)) cur)
     = axisXChanged (changeMask (scrollValues c) cur)"
  by (simp_all add: axisYChanged_def axisXChanged_def rerun_mask)

text \<open>Whichever way a pass reaches its commit, it places the thumbs of the changed axes.\<close>

lemma update_places_thumbs:
  assumes rtl: "st_isRtl (state c) = Some isRtl" and el: "contentEl c = Some el"
    and cur: "cur = sample (props c) isRtl el"
    and ok: "update forced c = Inr (c', sv)"
  shows "trackYEl c = Some tr \<Longrightarrow> thumbYEl c = Some th
           \<Longrightarrow> axisYChanged (changeMask (scrollValues c) cur)
           \<Longrightarrow> thumbYEl c' = Some (placeThumbY (props c) cur (tr_innerHeight tr) th)"
    and "trackXEl c = Some tr \<Longrightarrow> thumbXEl c = Some th
           \<Longrightarrow> axisXChanged (changeMask (scrollValues c) cur)
           \<Longrightarrow> thumbXEl c' = Some (placeThumbX (props c) (state c) cur (tr_innerWidth tr) th)"
proof -
  let ?m = "changeMask (scrollValues c) cur"
  let ?c1 = "storeVisibility cur c"
  let ?m1 = "changeMask (scrollValues ?c1) cur"
  have route: "?m \<noteq> 0 \<Longrightarrow>
      (commit ?m cur c = Inr (c', sv) \<and> \<not> (maskBit ?m 10 \<or> maskBit ?m 11))
      \<or> (commit ?m1 cur ?c1 = Inr (c', sv) \<and> (maskBit ?m 10 \<or> maskBit ?m 11))"
  proof (cases "maskBit ?m 10 \<or> maskBit ?m 11")
    case True
    then show ?thesis
      using update_rerun(1) [OF rtl el cur True, of forced] update_rerun(2) [OF rtl el cur True] ok
      by simp
  next
    case False
    assume "?m \<noteq> 0"
    then have "update forced c = commit ?m cur c"
      using update_direct [OF rtl el cur refl, of forced] False by simp
    then show ?thesis
      using ok False by simp
  qed
  show "thumbYEl c' = Some (placeThumbY (props c) cur (tr_innerHeight tr) th)"
    if "trackYEl c = Some tr" "thumbYEl c = Some th" "axisYChanged ?m"
    using route [OF axisYChanged_nonzero [OF that(3)]] that
      commit_thumbY [of ?m cur c c' sv tr th] commit_thumbY [of ?m1 cur ?c1 c' sv tr th]
    by (auto simp add: rerun_axis storeVisibility_frame)
  show "thumbXEl c' = Some (placeThumbX (props c) (state c) cur (tr_innerWidth tr) th)"
    if "trackXEl c = Some tr" "thumbXEl c = Some th" "axisXChanged ?m"
    using route [OF axisXChanged_nonzero [OF that(3)]] that
      commit_thumbX [of ?m cur c c' sv tr th] commit_thumbX [of ?m1 cur ?c1 c' sv tr th]
    by (auto simp add: rerun_axis storeVisibility_frame)
qed









lemma settled_is_reached: "update False fitting = Inr (settled, scrollValues settled)"
  apply (subst update.simps)
  apply (simp add: fitting_def fittingViewport_def demo_defs pass_defs changeMask_eq_0_iff maskBit_changeMask)
  apply (subst update.simps)
  apply (simp add: demo_defs pass_defs changeMask_eq_0_iff maskBit_changeMask)
  apply (simp add: settled_def fitting_def fittingViewport_def demo_defs pass_defs geometry_eval)
  done

text \<open>
  C4. A pass with the orientation known and the viewport attached, whose change mask is
  all-zero and which is not forced, returns the stored snapshot and leaves the whole
  instance as it was: the snapshot, the React state, every style of every element and the
  list of effects (no \<open>setState\<close>, no callback).
\<close>

theorem update_unchanged_is_identity:
  assumes "st_isRtl (state c) = Some isRtl" and "contentEl c = Some el"
    and "changeMask (scrollValues c) (sample (props c) isRtl el) = 0"
  shows "update False c = Inr (c, scrollValues c)"
  using assms by (simp add: update.simps [of False c] Let_def)

theorem update_unchanged_is_identity_witness:
  "update False (synced False) = Inr (synced False, scrollValues (synced False))"
proof -
  have rtl: "st_isRtl (state (synced False)) = Some False"
    by (simp add: demo_defs)
  have el: "contentEl (synced False) = Some demoViewport"
    by (simp add: demo_defs)
  have same: "changeMask (scrollValues (synced False))
                (sample (props (synced False)) False demoViewport) = 0"
    by (simp add: changeMask_eq_0_iff demo_defs sample_def strict_eq_def Let_def)
  show ?thesis
    using rtl el same by (rule update_unchanged_is_identity)
qed




section \<open>The accessors: results\<close>

lemma set_scrollLeft_touches_viewport_only:
  "scrollValues (set_scrollLeft v c) = scrollValues c \<and> effects (set_scrollLeft v c) = effects c
   \<and> state (set_scrollLeft v c) = state c \<and> thumbXEl (set_scrollLeft v c) = thumbXEl c
   \<and> thumbYEl (set_scrollLeft v c) = thumbYEl c \<and> trackXEl (set_scrollLeft v c) = trackXEl c"
  by (simp add: set_scrollLeft_def split: option.splits)

text \<open>
  C6. The claim: setting \<open>scrollTop\<close> or \<open>scrollLeft\<close> writes the value to the viewport and
  runs a synchronization pass. \<open>set scrollTop\<close> does both. \<open>set scrollLeft\<close> writes the value
  and stops: on the concrete instance (snapshot in step with the viewport, scrolled to
  (100, 200)) setting \<open>scrollLeft\<close> to 50 leaves the stored snapshot at 100, the horizontal
  thumb untouched and no callback called, while setting \<open>scrollTop\<close> to 50 commits the new
  snapshot, moves the vertical thumb and calls \<open>onScroll\<close>.
\<close>

theorem set_scrollLeft_runs_no_pass:
  "scrollValues (set_scrollLeft (Num 50) (synced False)) = scrollValues (synced False)
   \<and> sv_scrollLeft (scrollValues (set_scrollLeft (Num 50) (synced False))) = Some (Num 100)
   \<and> get_scrollLeft (set_scrollLeft (Num 50) (synced False)) = Num 50
   \<and> thumbXEl (set_scrollLeft (Num 50) (synced False)) = Some demoThumb
   \<and> effects (set_scrollLeft (Num 50) (synced False)) = []
   \<and> map_sum id (\<lambda>c. (sv_scrollTop (scrollValues c), get_scrollTop c,
                         map_option th_transform (thumbYEl c), length (effects c)))
        (set_scrollTop (Num 50) (synced False))
      = Inr (Some (Num 50), Num 50, Some (Some (TranslateY (Num (35 / 4)))), 1)"
proof -
  have left: "set_scrollLeft (Num 50) (synced False)
              = (synced False)\<lparr>contentEl := Some (demoViewport\<lparr>el_scrollLeft := Num 50\<rparr>)\<rparr>"
    by (simp add: set_scrollLeft_def demo_defs)
  have top: "map_sum id (\<lambda>c. (sv_scrollTop (scrollValues c), get_scrollTop c,
                         map_option th_transform (thumbYEl c), length (effects c)))
        (set_scrollTop (Num 50) (synced False))
      = Inr (Some (Num 50), Num 50, Some (Some (TranslateY (Num (35 / 4)))), 1)"
    apply (simp add: set_scrollTop_def demo_defs)
    apply (subst update.simps)
    apply (simp add: demo_defs pass_defs changeMask_eq_0_iff maskBit_changeMask get_scrollTop_def)
    apply (simp add: geometry_eval)
    done
  have a: "scrollValues (set_scrollLeft (Num 50) (synced False)) = scrollValues (synced False)"
    by (simp add: left)
  have b: "sv_scrollLeft (scrollValues (set_scrollLeft (Num 50) (synced False))) = Some (Num 100)"
    by (simp add: left) (simp add: demo_defs sample_def Let_def)
  have c: "get_scrollLeft (set_scrollLeft (Num 50) (synced False)) = Num 50"
    by (simp add: left get_scrollLeft_def)
  have d: "thumbXEl (set_scrollLeft (Num 50) (synced False)) = Some demoThumb"
    by (simp add: left) (simp add: demo_defs)
  have e: "effects (set_scrollLeft (Num 50) (synced False)) = []"
    by (simp add: left) (simp add: demo_defs)
  show ?thesis
    by (intro conjI) (rule a, rule b, rule c, rule d, rule e, rule top)
qed

text \<open>
  C10. Without a viewport (\<open>contentEl\<close> is \<open>null\<close>) the six getters return \<open>0\<close>, the two
  setters change nothing and raise nothing, and the four commands return the instance
  unchanged.
\<close>

theorem unattached_accessors_and_commands:
  assumes "contentEl c = None"
  shows "get_scrollTop c = Num 0 \<and> get_scrollLeft c = Num 0
       \<and> get_scrollHeight c = Num 0 \<and> get_scrollWidth c = Num 0
       \<and> get_clientHeight c = Num 0 \<and> get_clientWidth c = Num 0
       \<and> set_scrollTop v c = Inr c \<and> set_scrollLeft v c = c
       \<and> scrollToTop c = c \<and> scrollToBottom c = c
       \<and> scrollToLeft c = c \<and> scrollToRight c = c"
  using assms
  by (simp add: get_scrollTop_def get_scrollLeft_def get_scrollHeight_def get_scrollWidth_def
      get_clientHeight_def get_clientWidth_def set_scrollTop_def set_scrollLeft_def
      scrollToTop_def scrollToBottom_def scrollToLeft_def scrollToRight_def)

theorem unattached_accessors_and_commands_witness:
  "get_scrollTop (constructor defaultProps) = Num 0
   \<and> get_scrollLeft (constructor defaultProps) = Num 0
   \<and> get_scrollHeight (constructor defaultProps) = Num 0
   \<and> get_scrollWidth (constructor defaultProps) = Num 0
   \<and> get_clientHeight (constructor defaultProps) = Num 0
   \<and> get_clientWidth (constructor defaultProps) = Num 0
   \<and> set_scrollTop (Num 40) (constructor defaultProps) = Inr (constructor defaultProps)
   \<and> set_scrollLeft (Num 40) (constructor defaultProps) = constructor defaultProps
   \<and> scrollToTop (constructor defaultProps) = constructor defaultProps
   \<and> scrollToBottom (constructor defaultProps) = constructor defaultProps
   \<and> scrollToLeft (constructor defaultProps) = constructor defaultProps
   \<and> scrollToRight (constructor defaultProps) = constructor defaultProps"
proof -
  have "contentEl (constructor defaultProps) = None"
    by (simp add: constructor_def)
  then show ?thesis
    by (rule unattached_accessors_and_commands)
qed

section \<open>Gestures: results\<close>

text \<open>Neither handler reads the React state.\<close>

lemma scrollForOffset_ignores_state:
  "scrollForOffsetX offset (c\<lparr>state := s\<rparr>) = scrollForOffsetX offset c"
  "scrollForOffsetY offset (c\<lparr>state := s\<rparr>) = scrollForOffsetY offset c"
  by (simp_all add: scrollForOffsetX_def scrollForOffsetY_def split: option.splits)

lemma handleTrackClick_ignores_state:
  "handleTrackClick ax offset (c\<lparr>state := s\<rparr>)
     = map_sum id (\<lambda>d. d\<lparr>state := s\<rparr>) (handleTrackClick ax offset c)"
  by (cases ax)
     (auto simp add: handleTrackClick_def scrollForOffsetX_def scrollForOffsetY_def Let_def
        split: option.splits)

lemma scrollDetect_ignores_state:
  "scrollDetect (h, c\<lparr>state := s\<rparr>) = map_prod id (\<lambda>d. d\<lparr>state := s\<rparr>) (scrollDetect (h, c))"
  by (simp add: scrollDetect_def Let_def)

lemma handleThumbDrag_ignores_state:
  "handleThumbDrag ax offset (h, c\<lparr>state := s\<rparr>)
     = map_sum id (map_prod id (\<lambda>d. d\<lparr>state := s\<rparr>)) (handleThumbDrag ax offset (h, c))"
  by (cases ax)
     (auto simp add: handleThumbDrag_def scrollDetect_ignores_state scrollForOffsetX_def
        scrollForOffsetY_def Let_def split: option.splits)

text \<open>What the two handlers assign to the viewport, for an offset on an axis.\<close>

lemma handleTrackClick_viewport:
  assumes "contentEl c = Some el"
  shows "trackXEl c = Some trX \<Longrightarrow> thumbXEl c = Some thX \<Longrightarrow>
         map_sum id contentEl (handleTrackClick TYPE_X offset c)
           = Inr (if trackClickBehavior (props c) = Jump
                  then Some (el\<lparr>el_scrollLeft :=
                         computeScrollForOffset (tr_innerWidth trX) (th_clientWidth thX) offset
                           (el_scrollWidth el) (el_clientWidth el)\<rparr>)
                  else if trackClickBehavior (props c) = Step
                  then Some (el\<lparr>el_scrollLeft :=
                         (if js_lt (el_scrollLeft el)
                               (computeScrollForOffset (tr_innerWidth trX) (th_clientWidth thX) offset
                                  (el_scrollWidth el) (el_clientWidth el))
                          then js_add (el_scrollLeft el) (el_clientWidth el)
                          else js_sub (el_scrollLeft el) (el_clientWidth el))\<rparr>)
                  else Some el)"
    and "trackYEl c = Some trY \<Longrightarrow> thumbYEl c = Some thY \<Longrightarrow>
         map_sum id contentEl (handleTrackClick TYPE_Y offset c)
           = Inr (if trackClickBehavior (props c) = Jump
                  then Some (el\<lparr>el_scrollTop :=
                         computeScrollForOffset (tr_innerHeight trY) (th_clientHeight thY) offset
                           (el_scrollHeight el) (el_clientHeight el)\<rparr>)
                  else if trackClickBehavior (props c) = Step
                  then Some (el\<lparr>el_scrollTop :=
                         (if js_lt (el_scrollTop el)
                               (computeScrollForOffset (tr_innerHeight trY) (th_clientHeight thY) offset
                                  (el_scrollHeight el) (el_clientHeight el))
                          then js_add (el_scrollTop el) (el_clientHeight el)
                          else js_sub (el_scrollTop el) (el_clientHeight el))\<rparr>)
                  else Some el)"
  using assms
  by (simp_all add: handleTrackClick_def scrollForOffsetX_def scrollForOffsetY_def jumpTo_def
      stepTo_def Let_def)

lemma scrollDetect_frame:
  "contentEl (snd (scrollDetect w)) = contentEl (snd w)"
  "trackXEl (snd (scrollDetect w)) = trackXEl (snd w)"
  "thumbXEl (snd (scrollDetect w)) = thumbXEl (snd w)"
  "trackYEl (snd (scrollDetect w)) = trackYEl (snd w)"
  "thumbYEl (snd (scrollDetect w)) = thumbYEl (snd w)"
  by (simp_all add: scrollDetect_def Let_def setTimeout_def)

lemma handleThumbDrag_viewport:
  assumes "contentEl c = Some el"
  shows "trackXEl c = Some trX \<Longrightarrow> thumbXEl c = Some thX \<Longrightarrow>
         map_sum id (contentEl \<circ> snd) (handleThumbDrag TYPE_X offset (h, c))
           = Inr (Some (el\<lparr>el_scrollLeft :=
                    computeScrollForOffset (tr_innerWidth trX) (th_clientWidth thX) offset
                      (el_scrollWidth el) (el_clientWidth el)\<rparr>))"
    and "trackYEl c = Some trY \<Longrightarrow> thumbYEl c = Some thY \<Longrightarrow>
         map_sum id (contentEl \<circ> snd) (handleThumbDrag TYPE_Y offset (h, c))
           = Inr (Some (el\<lparr>el_scrollTop :=
                    computeScrollForOffset (tr_innerHeight trY) (th_clientHeight thY) offset
                      (el_scrollHeight el) (el_clientHeight el)\<rparr>))"
  using assms scrollDetect_frame [of "(h, c)"]
  by (simp_all add: handleThumbDrag_def scrollForOffsetX_def scrollForOffsetY_def Let_def)

text \<open>
  C7. A pass that places the horizontal thumb of a scrollable axis writes the offset
  \<open>thumbSize + rawOffset - trackSize\<close> when the orientation is right-to-left and the raw
  offset of \<open>computeThumbOffset\<close> otherwise, whatever happens on the vertical axis; a pass
  that places the vertical thumb always writes the raw offset. With a raw offset of 10, a
  thumb of 30 and a track of 100 the mirrored offset is -60. The handlers take the offset
  they are given as it is: a drag on the horizontal thumb assigns to \<open>scrollLeft\<close> the value
  of \<open>computeScrollForOffset\<close> for that offset, a click on the horizontal track jumps to
  that value or steps by comparing with it, on any instance, so whatever the orientation
  in the state, in the snapshot, in the props or of the viewport; and their results
  differ only in the orientation field of the state they were given.
\<close>

theorem rtl_mirrors_thumb_placement_only:
  fixes c c' d :: component and el eld :: viewport and trX trY trd :: track
    and thX thY thd :: thumb and sizeX rawX sizeY rawY offset target :: jsnum
  defines "sizeX \<equiv> computeThumbSize (tr_innerWidth trX) (el_scrollWidth el) (el_clientWidth el)
                      (minimalThumbsSize (props c))"
    and "rawX \<equiv> computeThumbOffset (tr_innerWidth trX) sizeX (el_scrollWidth el) (el_clientWidth el)
                   (el_scrollLeft el)"
    and "sizeY \<equiv> computeThumbSize (tr_innerHeight trY) (el_scrollHeight el) (el_clientHeight el)
                      (minimalThumbsSize (props c))"
    and "rawY \<equiv> computeThumbOffset (tr_innerHeight trY) sizeY (el_scrollHeight el) (el_clientHeight el)
                   (el_scrollTop el)"
    and "target \<equiv> computeScrollForOffset (tr_innerWidth trd) (th_clientWidth thd) offset
                      (el_scrollWidth eld) (el_clientWidth eld)"
  assumes rtl: "st_isRtl (state c) = Some isRtl" and el: "contentEl c = Some el"
    and cur: "cur = sample (props c) isRtl el"
    and ok: "update forced c = Inr (c', sv)"
  shows "(trackXEl c = Some trX \<and> thumbXEl c = Some thX
            \<and> axisXChanged (changeMask (scrollValues c) cur)
            \<and> ToBoolean (sv_scrollXPossible cur) \<longrightarrow>
          map_option th_transform (thumbXEl c')
            = Some (Some (TranslateX (if isRtl then js_sub (js_add sizeX rawX) (tr_innerWidth trX)
                                      else rawX))))
       \<and> (trackYEl c = Some trY \<and> thumbYEl c = Some thY
            \<and> axisYChanged (changeMask (scrollValues c) cur)
            \<and> ToBoolean (sv_scrollYPossible cur) \<longrightarrow>
          map_option th_transform (thumbYEl c') = Some (Some (TranslateY rawY)))
       \<and> js_sub (js_add (Num 30) (Num 10)) (Num 100) = Num (- 60)
       \<and> (contentEl d = Some eld \<and> trackXEl d = Some trd \<and> thumbXEl d = Some thd \<longrightarrow>
            map_sum id (contentEl \<circ> snd) (handleThumbDrag TYPE_X offset (h, d))
              = Inr (Some (eld\<lparr>el_scrollLeft := target\<rparr>))
          \<and> map_sum id contentEl (handleTrackClick TYPE_X offset d)
              = Inr (if trackClickBehavior (props d) = Jump
                     then Some (eld\<lparr>el_scrollLeft := target\<rparr>)
                     else if trackClickBehavior (props d) = Step
                     then Some (eld\<lparr>el_scrollLeft :=
                            (if js_lt (el_scrollLeft eld) target
                             then js_add (el_scrollLeft eld) (el_clientWidth eld)
                             else js_sub (el_scrollLeft eld) (el_clientWidth eld))\<rparr>)
                     else Some eld))
       \<and> handleTrackClick ax offset (c\<lparr>state := (state c)\<lparr>st_isRtl := r\<rparr>\<rparr>)
           = map_sum id (\<lambda>d. d\<lparr>state := (state c)\<lparr>st_isRtl := r\<rparr>\<rparr>) (handleTrackClick ax offset c)
       \<and> handleThumbDrag ax offset (h, c\<lparr>state := (state c)\<lparr>st_isRtl := r\<rparr>\<rparr>)
           = map_sum id (map_prod id (\<lambda>d. d\<lparr>state := (state c)\<lparr>st_isRtl := r\<rparr>\<rparr>))
               (handleThumbDrag ax offset (h, c))"
proof -
  have placedX: "map_option th_transform (thumbXEl c')
           = Some (Some (TranslateX (if isRtl then js_sub (js_add sizeX rawX) (tr_innerWidth trX)
                                     else rawX)))"
    if tx: "trackXEl c = Some trX" "thumbXEl c = Some thX"
      and chX: "axisXChanged (changeMask (scrollValues c) cur)"
      and possX: "ToBoolean (sv_scrollXPossible cur)"
  proof -
    have "thumbXEl c' = Some (placeThumbX (props c) (state c) cur (tr_innerWidth trX) thX)"
      using update_places_thumbs(2) [OF rtl el cur ok tx chX] .
    then show ?thesis
      using possX rtl
      by (simp add: placeThumbX_def Let_def cur sample_fields sizeX_def rawX_def)
  qed
  have placedY: "map_option th_transform (thumbYEl c') = Some (Some (TranslateY rawY))"
    if ty: "trackYEl c = Some trY" "thumbYEl c = Some thY"
      and chY: "axisYChanged (changeMask (scrollValues c) cur)"
      and possY: "ToBoolean (sv_scrollYPossible cur)"
  proof -
    have "thumbYEl c' = Some (placeThumbY (props c) cur (tr_innerHeight trY) thY)"
      using update_places_thumbs(1) [OF rtl el cur ok ty chY] .
    then show ?thesis
      using possY
      by (simp add: placeThumbY_def Let_def cur sample_fields sizeY_def rawY_def)
  qed
  have example: "js_sub (js_add (Num 30) (Num 10)) (Num 100) = Num (- 60)"
    by (simp add: js_sub_def double_eval)
  have input: "map_sum id (contentEl \<circ> snd) (handleThumbDrag TYPE_X offset (h, d))
              = Inr (Some (eld\<lparr>el_scrollLeft := target\<rparr>))
          \<and> map_sum id contentEl (handleTrackClick TYPE_X offset d)
              = Inr (if trackClickBehavior (props d) = Jump
                     then Some (eld\<lparr>el_scrollLeft := target\<rparr>)
                     else if trackClickBehavior (props d) = Step
                     then Some (eld\<lparr>el_scrollLeft :=
                            (if js_lt (el_scrollLeft eld) target
                             then js_add (el_scrollLeft eld) (el_clientWidth eld)
                             else js_sub (el_scrollLeft eld) (el_clientWidth eld))\<rparr>)
                     else Some eld)"
    if "contentEl d = Some eld" "trackXEl d = Some trd" "thumbXEl d = Some thd"
    unfolding target_def
    using handleThumbDrag_viewport(1) [OF that, of offset h]
      handleTrackClick_viewport(1) [OF that, of offset]
    by simp
  show ?thesis
    using placedX placedY example input handleTrackClick_ignores_state
      handleThumbDrag_ignores_state
    by simp
qed

lemma first_pass_succeeds:
  "\<exists>r. update False (mounted isRtl) = Inr r"
  "\<exists>r. update False horizontalOnly = Inr r"
proof -
  show "\<exists>r. update False (mounted isRtl) = Inr r"
    apply (subst update.simps)
    apply (simp add: demo_defs pass_defs changeMask_eq_0_iff maskBit_changeMask)
    apply (subst update.simps)
    apply (simp add: demo_defs pass_defs changeMask_eq_0_iff maskBit_changeMask)
    done
  show "\<exists>r. update False horizontalOnly = Inr r"
    apply (subst update.simps)
    apply (simp add: horizontalOnly_def demo_defs pass_defs changeMask_eq_0_iff maskBit_changeMask)
    apply (subst update.simps)
    apply (simp add: demo_defs pass_defs changeMask_eq_0_iff maskBit_changeMask)
    done
qed

lemma mounted_facts:
  "st_isRtl (state (mounted isRtl)) = Some isRtl"
  "contentEl (mounted isRtl) = Some demoViewport"
  "trackXEl (mounted isRtl) = Some demoTrack \<and> thumbXEl (mounted isRtl) = Some demoThumb
   \<and> axisXChanged (changeMask (scrollValues (mounted isRtl)) (sample (props (mounted isRtl)) isRtl demoViewport))
   \<and> ToBoolean (sv_scrollXPossible (sample (props (mounted isRtl)) isRtl demoViewport))"
  "trackYEl (mounted isRtl) = Some demoTrack \<and> thumbYEl (mounted isRtl) = Some demoThumb
   \<and> axisYChanged (changeMask (scrollValues (mounted isRtl)) (sample (props (mounted isRtl)) isRtl demoViewport))
   \<and> ToBoolean (sv_scrollYPossible (sample (props (mounted isRtl)) isRtl demoViewport))"
  by (simp_all add: demo_defs sample_def Let_def js_gt_def axisXChanged_def axisYChanged_def
      maskBit_changeMask)

lemma horizontalOnly_facts:
  "st_isRtl (state horizontalOnly) = Some True"
  "contentEl horizontalOnly = Some demoViewport"
  "trackXEl horizontalOnly = Some demoTrack \<and> thumbXEl horizontalOnly = Some demoThumb
   \<and> axisXChanged (changeMask (scrollValues horizontalOnly) (sample (props horizontalOnly) True demoViewport))
   \<and> ToBoolean (sv_scrollXPossible (sample (props horizontalOnly) True demoViewport))"
  "trackYEl horizontalOnly = None"
  by (simp_all add: horizontalOnly_def demo_defs sample_def Let_def js_gt_def axisXChanged_def
      maskBit_changeMask)

lemma demo_geometry:
  "computeThumbSize (Num 100) (Num 800) (Num 100) (Num 30) = Num 30"
  "computeThumbOffset (Num 100) (Num 30) (Num 800) (Num 100) (Num 100) = Num 10"
  "computeThumbSize (Num 100) (Num 500) (Num 100) (Num 30) = Num 30"
  "computeThumbOffset (Num 100) (Num 30) (Num 500) (Num 100) (Num 200) = Num 35"
  "js_sub (js_add (Num 30) (Num 10)) (Num 100) = Num (- 60)"
  "computeScrollForOffset (Num 100) (Num 30) (Num 85) (Num 800) (Num 100) = Num 700"
  "computeScrollForOffset (Num 100) (Num 30) (Num 85) (Num 500) (Num 100) = Num 400"
  "computeScrollForOffset (Num 100) (Num 30) (Num 15) (Num 500) (Num 100) = Num 0"
  "computeScrollForOffset (Num 100) (Num 30) (Num 50) (Num 500) (Num 100) = Num 200"
  by (simp_all add: geometry_eval)

lemma demo_values:
  "tr_innerWidth demoTrack = Num 100" "tr_innerHeight demoTrack = Num 100"
  "th_clientWidth demoThumb = Num 30" "th_clientHeight demoThumb = Num 30"
  "el_scrollWidth demoViewport = Num 800" "el_clientWidth demoViewport = Num 100"
  "el_scrollLeft demoViewport = Num 100" "el_scrollHeight demoViewport = Num 500"
  "el_clientHeight demoViewport = Num 100" "el_scrollTop demoViewport = Num 200"
  "minimalThumbsSize (props (mounted isRtl)) = Num 30"
  "minimalThumbsSize (props horizontalOnly) = Num 30"
  by (simp_all add: horizontalOnly_def demo_defs)

theorem rtl_mirrors_thumb_placement_only_witness:
  "map_sum id (\<lambda>r. (map_option th_transform (thumbXEl (fst r)),
                     map_option th_transform (thumbYEl (fst r))))
     (update False (mounted True))
   = Inr (Some (Some (TranslateX (Num (- 60)))), Some (Some (TranslateY (Num 35))))
   \<and> map_sum id (\<lambda>r. (map_option th_transform (thumbXEl (fst r)),
                       map_option th_transform (thumbYEl (fst r))))
       (update False (mounted False))
     = Inr (Some (Some (TranslateX (Num 10))), Some (Some (TranslateY (Num 35))))
   \<and> map_sum id (\<lambda>r. map_option th_transform (thumbXEl (fst r))) (update False horizontalOnly)
     = Inr (Some (Some (TranslateX (Num (- 60)))))
   \<and> map_sum id (map_option el_scrollLeft \<circ> (contentEl \<circ> snd))
        (handleThumbDrag TYPE_X (Num 85) (idleHost, mounted True))
     = Inr (Some (Num 700))
   \<and> map_sum id (map_option el_scrollLeft \<circ> contentEl)
        (handleTrackClick TYPE_X (Num 85) (mounted True))
     = Inr (Some (Num 700))"
proof -
  have one: "map_sum id (\<lambda>r. (map_option th_transform (thumbXEl (fst r)),
                     map_option th_transform (thumbYEl (fst r))))
               (update False (mounted isRtl))
             = Inr (Some (Some (TranslateX (if isRtl then Num (- 60) else Num 10))),
                    Some (Some (TranslateY (Num 35))))" for isRtl
  proof -
    obtain c' sv where ok: "update False (mounted isRtl) = Inr (c', sv)"
      using first_pass_succeeds(1) [of isRtl] by auto
    note placed = rtl_mirrors_thumb_placement_only [OF mounted_facts(1) mounted_facts(2) refl ok,
        where trX = demoTrack and trY = demoTrack and thX = demoThumb and thY = demoThumb]
    have "map_option th_transform (thumbXEl c')
            = Some (Some (TranslateX (if isRtl then Num (- 60) else Num 10)))"
      using placed [THEN conjunct1, rule_format, OF mounted_facts(3)]
      by (simp add: demo_values demo_geometry js_sub_def double_eval cong del: if_weak_cong)
    moreover have "map_option th_transform (thumbYEl c') = Some (Some (TranslateY (Num 35)))"
      using placed [THEN conjunct2, THEN conjunct1, rule_format, OF mounted_facts(4)]
      by (simp add: demo_values demo_geometry)
    ultimately show ?thesis
      using ok by simp
  qed
  have lone: "map_sum id (\<lambda>r. map_option th_transform (thumbXEl (fst r))) (update False horizontalOnly)
     = Inr (Some (Some (TranslateX (Num (- 60)))))"
  proof -
    obtain c' sv where ok: "update False horizontalOnly = Inr (c', sv)"
      using first_pass_succeeds(2) by auto
    note placed = rtl_mirrors_thumb_placement_only [OF horizontalOnly_facts(1)
        horizontalOnly_facts(2) refl ok, where trX = demoTrack and thX = demoThumb]
    have "map_option th_transform (thumbXEl c') = Some (Some (TranslateX (Num (- 60))))"
      using placed [THEN conjunct1, rule_format, OF horizontalOnly_facts(3)]
      by (simp add: demo_values demo_geometry js_sub_def double_eval)
    then show ?thesis
      using ok by simp
  qed
  obtain c' sv where ok: "update False (mounted True) = Inr (c', sv)"
    using first_pass_succeeds(1) [of True] by auto
  have parts: "contentEl (mounted True) = Some demoViewport \<and> trackXEl (mounted True) = Some demoTrack
      \<and> thumbXEl (mounted True) = Some demoThumb"
    by (simp add: demo_defs)
  note input = rtl_mirrors_thumb_placement_only [OF mounted_facts(1) mounted_facts(2) refl ok,
      where d = "mounted True" and eld = demoViewport and trd = demoTrack and thd = demoThumb
        and offset = "Num 85" and h = idleHost,
      THEN conjunct2, THEN conjunct2, THEN conjunct2, THEN conjunct1, rule_format, OF parts]
  have jumps: "trackClickBehavior (props (mounted True)) = Jump"
    by (simp add: demo_defs)
  have project: "map_sum id (f \<circ> g) x = map_sum id f (map_sum id g x)"
    for f :: "viewport option \<Rightarrow> jsnum option" and g :: "'a \<Rightarrow> viewport option" and x :: "error + 'a"
    by (cases x) simp_all
  have drag: "map_sum id (map_option el_scrollLeft \<circ> (contentEl \<circ> snd))
        (handleThumbDrag TYPE_X (Num 85) (idleHost, mounted True))
     = Inr (Some (Num 700))"
    unfolding project input [THEN conjunct1] by (simp add: demo_values demo_geometry)
  have click: "map_sum id (map_option el_scrollLeft \<circ> contentEl)
        (handleTrackClick TYPE_X (Num 85) (mounted True))
     = Inr (Some (Num 700))"
    unfolding project input [THEN conjunct2] using jumps by (simp add: demo_values demo_geometry)
  show ?thesis
    using one [of True] one [of False] lone drag click by simp
qed

text \<open>
  C8, as stated: with \<open>"step"\<close> the position changes by one viewport length toward the
  target. The code steps forward when the current position is below the target and
  backward in every other case, so also when the position is the target: a click at
  offset 50 on the vertical track of the stepping instance has the target 200, which is
  the current position, and moves the viewport to 100, away from it.
\<close>

theorem track_click_step_at_target_moves_away:
  "scrollForOffsetY (Num 50) stepping = Inr (Num 200)
   \<and> get_scrollTop stepping = Num 200
   \<and> map_sum id get_scrollTop (handleTrackClick TYPE_Y (Num 50) stepping) = Inr (Num 100)
   \<and> \<not> steps_toward (Num 200) (Num 200) (Num 100)"
  by (simp add: scrollForOffsetY_def handleTrackClick_def stepTo_def get_scrollTop_def
      steps_toward_def stepping_def demo_defs geometry_eval)

text \<open>
  C8, amended: a click on a track whose elements are attached (the clicked axis only; the
  other track need not be rendered): with \<open>"jump"\<close> the scroll position of the clicked axis
  becomes the value of \<open>computeScrollForOffset\<close> for the click offset; with \<open>"step"\<close> it
  becomes the current position plus the viewport's client length when the current
  position is below that value, and minus the client length otherwise, also when the two
  are equal, however far the value is. The sum and the difference are those of the
  doubles; for an integer position and client length (below \<open>2 ^ 53\<close>) the change is
  exactly one client length.
\<close>

theorem track_click_jumps_or_steps_one_viewport:
  fixes c :: component and el :: viewport and trX trY :: track and thX thY :: thumb
    and offset targetX targetY :: jsnum and a w b v :: int
  defines "targetX \<equiv> computeScrollForOffset (tr_innerWidth trX) (th_clientWidth thX) offset
                        (el_scrollWidth el) (el_clientWidth el)"
    and "targetY \<equiv> computeScrollForOffset (tr_innerHeight trY) (th_clientHeight thY) offset
                        (el_scrollHeight el) (el_clientHeight el)"
  assumes el: "contentEl c = Some el"
  shows "(trackXEl c = Some trX \<and> thumbXEl c = Some thX \<longrightarrow>
            (trackClickBehavior (props c) = Jump \<longrightarrow>
               map_sum id contentEl (handleTrackClick TYPE_X offset c)
                 = Inr (Some (el\<lparr>el_scrollLeft := targetX\<rparr>)))
          \<and> (trackClickBehavior (props c) = Step \<longrightarrow>
               map_sum id contentEl (handleTrackClick TYPE_X offset c)
                 = Inr (Some (el\<lparr>el_scrollLeft :=
                                 (if js_lt (el_scrollLeft el) targetX
                                  then js_add (el_scrollLeft el) (el_clientWidth el)
                                  else js_sub (el_scrollLeft el) (el_clientWidth el))\<rparr>)))
          \<and> (trackClickBehavior (props c) = Step
               \<and> el_scrollLeft el = Num (of_int a) \<and> el_clientWidth el = Num (of_int w)
               \<and> \<bar>a + w\<bar> < 2 ^ 53 \<and> \<bar>a - w\<bar> < 2 ^ 53 \<longrightarrow>
               map_sum id (map_option el_scrollLeft \<circ> contentEl) (handleTrackClick TYPE_X offset c)
                 = Inr (Some (Num (of_int (if js_lt (Num (of_int a)) targetX then a + w else a - w))))))
       \<and> (trackYEl c = Some trY \<and> thumbYEl c = Some thY \<longrightarrow>
            (trackClickBehavior (props c) = Jump \<longrightarrow>
               map_sum id contentEl (handleTrackClick TYPE_Y offset c)
                 = Inr (Some (el\<lparr>el_scrollTop := targetY\<rparr>)))
          \<and> (trackClickBehavior (props c) = Step \<longrightarrow>
               map_sum id contentEl (handleTrackClick TYPE_Y offset c)
                 = Inr (Some (el\<lparr>el_scrollTop :=
                                 (if js_lt (el_scrollTop el) targetY
                                  then js_add (el_scrollTop el) (el_clientHeight el)
                                  else js_sub (el_scrollTop el) (el_clientHeight el))\<rparr>)))
          \<and> (trackClickBehavior (props c) = Step
               \<and> el_scrollTop el = Num (of_int b) \<and> el_clientHeight el = Num (of_int v)
               \<and> \<bar>b + v\<bar> < 2 ^ 53 \<and> \<bar>b - v\<bar> < 2 ^ 53 \<longrightarrow>
               map_sum id (map_option el_scrollTop \<circ> contentEl) (handleTrackClick TYPE_Y offset c)
                 = Inr (Some (Num (of_int (if js_lt (Num (of_int b)) targetY then b + v else b - v))))))"
proof -
  have project: "map_sum id (f \<circ> contentEl) r = map_sum id f (map_sum id contentEl r)"
    for f :: "viewport option \<Rightarrow> jsnum option" and r :: "error + component"
    by (cases r) simp_all
  have sum: "js_add (Num (of_int i)) (Num (of_int j)) = Num (of_int (i + j))"
    if "\<bar>i + j\<bar> < 2 ^ 53" for i j :: int
    using toDouble_of_int [OF that] by simp
  have difference: "js_sub (Num (of_int i)) (Num (of_int j)) = Num (of_int (i - j))"
    if "\<bar>i - j\<bar> < 2 ^ 53" for i j :: int
    using toDouble_of_int [OF that] by (simp add: js_sub_def)
  have x: "(trackClickBehavior (props c) = Jump \<longrightarrow>
               map_sum id contentEl (handleTrackClick TYPE_X offset c)
                 = Inr (Some (el\<lparr>el_scrollLeft := targetX\<rparr>)))
          \<and> (trackClickBehavior (props c) = Step \<longrightarrow>
               map_sum id contentEl (handleTrackClick TYPE_X offset c)
                 = Inr (Some (el\<lparr>el_scrollLeft :=
                                 (if js_lt (el_scrollLeft el) targetX
                                  then js_add (el_scrollLeft el) (el_clientWidth el)
                                  else js_sub (el_scrollLeft el) (el_clientWidth el))\<rparr>)))
          \<and> (trackClickBehavior (props c) = Step
               \<and> el_scrollLeft el = Num (of_int a) \<and> el_clientWidth el = Num (of_int w)
               \<and> \<bar>a + w\<bar> < 2 ^ 53 \<and> \<bar>a - w\<bar> < 2 ^ 53 \<longrightarrow>
               map_sum id (map_option el_scrollLeft \<circ> contentEl) (handleTrackClick TYPE_X offset c)
                 = Inr (Some (Num (of_int (if js_lt (Num (of_int a)) targetX then a + w else a - w)))))"
    if tx: "trackXEl c = Some trX" "thumbXEl c = Some thX"
  proof -
    note click = handleTrackClick_viewport(1) [OF el tx, of offset, folded targetX_def]
    have stepped: "map_sum id (map_option el_scrollLeft \<circ> contentEl) (handleTrackClick TYPE_X offset c)
                 = Inr (Some (Num (of_int (if js_lt (Num (of_int a)) targetX then a + w else a - w))))"
      if "trackClickBehavior (props c) = Step" "el_scrollLeft el = Num (of_int a)"
        "el_clientWidth el = Num (of_int w)" "\<bar>a + w\<bar> < 2 ^ 53" "\<bar>a - w\<bar> < 2 ^ 53"
      unfolding project click using that(1,2,3) sum [OF that(4)] difference [OF that(5)]
      by simp
    show ?thesis
      using click stepped by simp
  qed
  have y: "(trackClickBehavior (props c) = Jump \<longrightarrow>
               map_sum id contentEl (handleTrackClick TYPE_Y offset c)
                 = Inr (Some (el\<lparr>el_scrollTop := targetY\<rparr>)))
          \<and> (trackClickBehavior (props c) = Step \<longrightarrow>
               map_sum id contentEl (handleTrackClick TYPE_Y offset c)
                 = Inr (Some (el\<lparr>el_scrollTop :=
                                 (if js_lt (el_scrollTop el) targetY
                                  then js_add (el_scrollTop el) (el_clientHeight el)
                                  else js_sub (el_scrollTop el) (el_clientHeight el))\<rparr>)))
          \<and> (trackClickBehavior (props c) = Step
               \<and> el_scrollTop el = Num (of_int b) \<and> el_clientHeight el = Num (of_int v)
               \<and> \<bar>b + v\<bar> < 2 ^ 53 \<and> \<bar>b - v\<bar> < 2 ^ 53 \<longrightarrow>
               map_sum id (map_option el_scrollTop \<circ> contentEl) (handleTrackClick TYPE_Y offset c)
                 = Inr (Some (Num (of_int (if js_lt (Num (of_int b)) targetY then b + v else b - v)))))"
    if ty: "trackYEl c = Some trY" "thumbYEl c = Some thY"
  proof -
    note click = handleTrackClick_viewport(2) [OF el ty, of offset, folded targetY_def]
    have stepped: "map_sum id (map_option el_scrollTop \<circ> contentEl) (handleTrackClick TYPE_Y offset c)
                 = Inr (Some (Num (of_int (if js_lt (Num (of_int b)) targetY then b + v else b - v))))"
      if "trackClickBehavior (props c) = Step" "el_scrollTop el = Num (of_int b)"
        "el_clientHeight el = Num (of_int v)" "\<bar>b + v\<bar> < 2 ^ 53" "\<bar>b - v\<bar> < 2 ^ 53"
      unfolding project click using that(1,2,3) sum [OF that(4)] difference [OF that(5)]
      by simp
    show ?thesis
      using click stepped by simp
  qed
  show ?thesis
    using x y by blast
qed

theorem track_click_jumps_or_steps_one_viewport_witness:
  "map_sum id (map_option el_scrollLeft \<circ> contentEl) (handleTrackClick TYPE_X (Num 85) (synced False))
     = Inr (Some (Num 700))
   \<and> map_sum id (map_option el_scrollTop \<circ> contentEl) (handleTrackClick TYPE_Y (Num 85) (synced False))
     = Inr (Some (Num 400))
   \<and> map_sum id (map_option el_scrollLeft \<circ> contentEl) (handleTrackClick TYPE_X (Num 85) stepping)
     = Inr (Some (Num 200))
   \<and> map_sum id (map_option el_scrollTop \<circ> contentEl) (handleTrackClick TYPE_Y (Num 15) stepping)
     = Inr (Some (Num 100))
   \<and> map_sum id (map_option el_scrollTop \<circ> contentEl) (handleTrackClick TYPE_Y (Num 50) stepping)
     = Inr (Some (Num 100))
   \<and> map_sum id (map_option el_scrollLeft \<circ> contentEl) (handleTrackClick TYPE_X (Num 85) horizontalOnly)
     = Inr (Some (Num 700))"
proof -
  have project: "map_sum id (f \<circ> contentEl) r = map_sum id f (map_sum id contentEl r)"
    for f :: "viewport option \<Rightarrow> jsnum option" and r :: "error + component"
    by (cases r) simp_all
  have parts: "contentEl (synced False) = Some demoViewport"
    "trackXEl (synced False) = Some demoTrack \<and> thumbXEl (synced False) = Some demoThumb"
    "trackYEl (synced False) = Some demoTrack \<and> thumbYEl (synced False) = Some demoThumb"
    "trackClickBehavior (props (synced False)) = Jump"
    "contentEl stepping = Some demoViewport"
    "trackXEl stepping = Some demoTrack \<and> thumbXEl stepping = Some demoThumb"
    "trackYEl stepping = Some demoTrack \<and> thumbYEl stepping = Some demoThumb"
    "trackClickBehavior (props stepping) = Step"
    "contentEl horizontalOnly = Some demoViewport"
    "trackXEl horizontalOnly = Some demoTrack \<and> thumbXEl horizontalOnly = Some demoThumb"
    "trackClickBehavior (props horizontalOnly) = Jump"
    by (simp_all add: stepping_def horizontalOnly_def demo_defs)
  have ints: "Num 100 = Num (of_int 100)" "Num 200 = Num (of_int 200)"
    by simp_all
  note jumpX = track_click_jumps_or_steps_one_viewport [OF parts(1), where offset = "Num 85"
      and trX = demoTrack and thX = demoThumb,
      THEN conjunct1, rule_format, OF parts(2), THEN conjunct1, rule_format, OF parts(4)]
  note jumpY = track_click_jumps_or_steps_one_viewport [OF parts(1), where offset = "Num 85"
      and trY = demoTrack and thY = demoThumb,
      THEN conjunct2, rule_format, OF parts(3), THEN conjunct1, rule_format, OF parts(4)]
  note stepX = track_click_jumps_or_steps_one_viewport [OF parts(5), where offset = "Num 85"
      and trX = demoTrack and thX = demoThumb and a = 100 and w = 100,
      THEN conjunct1, rule_format, OF parts(6), THEN conjunct2, THEN conjunct2, rule_format]
  note stepY = track_click_jumps_or_steps_one_viewport [OF parts(5), where offset = "Num 15"
      and trY = demoTrack and thY = demoThumb and b = 200 and v = 100,
      THEN conjunct2, rule_format, OF parts(7), THEN conjunct2, THEN conjunct2, rule_format]
  note tieY = track_click_jumps_or_steps_one_viewport [OF parts(5), where offset = "Num 50"
      and trY = demoTrack and thY = demoThumb and b = 200 and v = 100,
      THEN conjunct2, rule_format, OF parts(7), THEN conjunct2, THEN conjunct2, rule_format]
  note lone = track_click_jumps_or_steps_one_viewport [OF parts(9), where offset = "Num 85"
      and trX = demoTrack and thX = demoThumb,
      THEN conjunct1, rule_format, OF parts(10), THEN conjunct1, rule_format, OF parts(11)]
  have a: "map_sum id (map_option el_scrollLeft \<circ> contentEl) (handleTrackClick TYPE_X (Num 85) (synced False))
     = Inr (Some (Num 700))"
    unfolding project jumpX by (simp add: demo_values demo_geometry)
  have b: "map_sum id (map_option el_scrollTop \<circ> contentEl) (handleTrackClick TYPE_Y (Num 85) (synced False))
     = Inr (Some (Num 400))"
    unfolding project jumpY by (simp add: demo_values demo_geometry)
  have c: "map_sum id (map_option el_scrollLeft \<circ> contentEl) (handleTrackClick TYPE_X (Num 85) stepping)
     = Inr (Some (Num 200))"
    using stepX by (simp add: parts(8) demo_values demo_geometry)
  have d: "map_sum id (map_option el_scrollTop \<circ> contentEl) (handleTrackClick TYPE_Y (Num 15) stepping)
     = Inr (Some (Num 100))"
    using stepY by (simp add: parts(8) demo_values demo_geometry)
  have e: "map_sum id (map_option el_scrollTop \<circ> contentEl) (handleTrackClick TYPE_Y (Num 50) stepping)
     = Inr (Some (Num 100))"
    using tieY by (simp add: parts(8) demo_values demo_geometry)
  have f: "map_sum id (map_option el_scrollLeft \<circ> contentEl) (handleTrackClick TYPE_X (Num 85) horizontalOnly)
     = Inr (Some (Num 700))"
    unfolding project lone by (simp add: demo_values demo_geometry)
  show ?thesis
    by (intro conjI) (rule a, rule b, rule c, rule d, rule e, rule f)
qed

section \<open>The activity detector: results\<close>

lemma first_signal:
  assumes "onScrollStart (props c) \<or> onScrollStop (props c)"
    and "timeout c = None" and "timers h = []" and "now h \<le> t"
  shows "scrollDetect (elapse t (h, c))
         = (h\<lparr>now := t, timers := [(nextHandle h, t + scrollDetectionThreshold (props c))],
              nextHandle := Suc (nextHandle h)\<rparr>,
            c\<lparr>effects := effects c @ startEffects c, timeout := Some (nextHandle h)\<rparr>)"
  using assms
  by (auto simp add: scrollDetect_def elapse_def setTimeout_def Let_def startEffects_def max_def)

lemma next_signal:
  assumes "onScrollStart (props c) \<or> onScrollStop (props c)"
    and "timeout c = Some k" and "k \<noteq> 0"
    and "timers h = [(k, t + scrollDetectionThreshold (props c))]" and "now h = t"
    and "t \<le> u" and "u < t + scrollDetectionThreshold (props c)"
  shows "scrollDetect (elapse u (h, c))
         = (h\<lparr>now := u, timers := [(nextHandle h, u + scrollDetectionThreshold (props c))],
              nextHandle := Suc (nextHandle h)\<rparr>,
            c\<lparr>timeout := Some (nextHandle h)\<rparr>)"
  using assms
  by (auto simp add: scrollDetect_def elapse_def setTimeout_def clearTimeout_def Let_def max_def)

lemma signals_while_pending:
  assumes "onScrollStart (props c) \<or> onScrollStop (props c)"
    and "timeout c = Some k" and "k \<noteq> 0" and "0 < nextHandle h"
    and "timers h = [(k, t + scrollDetectionThreshold (props c))]" and "now h = t"
    and "close_together (scrollDetectionThreshold (props c)) (t # ts)"
  shows "\<exists>h' k'. signals ts (h, c) = (h', c\<lparr>timeout := Some k'\<rparr>)
           \<and> timers h' = [(k', last (t # ts) + scrollDetectionThreshold (props c))]
           \<and> k' \<noteq> 0"
  using assms
proof (induction ts arbitrary: h c k t)
  case Nil
  then show ?case by simp
next
  case (Cons u ts)
  let ?d = "scrollDetectionThreshold (props c)"
  let ?h1 = "h\<lparr>now := u, timers := [(nextHandle h, u + ?d)], nextHandle := Suc (nextHandle h)\<rparr>"
  let ?c1 = "c\<lparr>timeout := Some (nextHandle h)\<rparr>"
  have gap: "t \<le> u" "u < t + ?d" and rest: "close_together ?d (u # ts)"
    using Cons.prems(7) by simp_all
  have step: "scrollDetect (elapse u (h, c)) = (?h1, ?c1)"
    using Cons.prems(1,2,3,5,6) gap by (rule next_signal)
  have "\<exists>h' k'. signals ts (?h1, ?c1) = (h', ?c1\<lparr>timeout := Some k'\<rparr>)
           \<and> timers h' = [(k', last (u # ts) + scrollDetectionThreshold (props ?c1))]
           \<and> k' \<noteq> 0"
    using Cons.prems(1,4) rest
    by (intro Cons.IH [of ?c1 "nextHandle h" ?h1 u]) simp_all
  then show ?case
    using step by simp
qed

lemma timer_elapses:
  assumes "timers h = [(k, due)]"
  shows "due \<le> T \<Longrightarrow> elapse T (h, c) = (h\<lparr>now := max (now h) T, timers := []\<rparr>, timerCallback c)"
    and "T < due \<Longrightarrow> elapse T (h, c) = (h\<lparr>now := max (now h) T\<rparr>, c)"
  using assms by (simp_all add: elapse_def Let_def)

text \<open>
  C9. Signals at times \<open>t # ts\<close>, in order and each less than the threshold after the one
  before, reaching an instance with no timer pending and at least one of the two callbacks
  configured: once the host's time reaches the last signal plus the threshold, the
  instance has called \<open>onScrollStart\<close> once (first) and \<open>onScrollStop\<close> once (last), each if
  configured, and no timer is left; before that time only the start call has happened
  and the handle is still pending. With neither callback configured \<open>scrollDetect\<close> changes
  nothing, in the instance or in the host.
\<close>

theorem burst_fires_one_start_and_one_stop:
  assumes cfg: "onScrollStart (props c) \<or> onScrollStop (props c)"
    and idle: "timeout c = None" "timers h = []"
    and handles: "0 < nextHandle h"
    and burst: "now h \<le> t" "close_together (scrollDetectionThreshold (props c)) (t # ts)"
  shows "(last (t # ts) + scrollDetectionThreshold (props c) \<le> T \<longrightarrow>
            snd (elapse T (signals (t # ts) (h, c)))
              = c\<lparr>effects := effects c @ startEffects c @ stopEffects c\<rparr>
            \<and> timers (fst (elapse T (signals (t # ts) (h, c)))) = [])
       \<and> (T < last (t # ts) + scrollDetectionThreshold (props c) \<longrightarrow>
            effects (snd (elapse T (signals (t # ts) (h, c)))) = effects c @ startEffects c
            \<and> handleTruthy (timeout (snd (elapse T (signals (t # ts) (h, c))))))
       \<and> (\<not> onScrollStart (props c0) \<and> \<not> onScrollStop (props c0) \<longrightarrow>
            scrollDetect (h0, c0) = (h0, c0))"
proof -
  let ?d = "scrollDetectionThreshold (props c)"
  let ?h1 = "h\<lparr>now := t, timers := [(nextHandle h, t + ?d)], nextHandle := Suc (nextHandle h)\<rparr>"
  let ?c1 = "c\<lparr>effects := effects c @ startEffects c, timeout := Some (nextHandle h)\<rparr>"
  have first: "scrollDetect (elapse t (h, c)) = (?h1, ?c1)"
    using cfg idle burst(1) by (rule first_signal)
  have "\<exists>h' k'. signals ts (?h1, ?c1) = (h', ?c1\<lparr>timeout := Some k'\<rparr>)
           \<and> timers h' = [(k', last (t # ts) + scrollDetectionThreshold (props ?c1))]
           \<and> k' \<noteq> 0"
    using cfg handles burst(2)
    by (intro signals_while_pending [of ?c1 "nextHandle h" ?h1 t ts]) simp_all
  then obtain h' k' where run: "signals (t # ts) (h, c) = (h', ?c1\<lparr>timeout := Some k'\<rparr>)"
    and pending: "timers h' = [(k', last (t # ts) + ?d)]" and k': "k' \<noteq> 0"
    using first by auto
  have fired: "snd (elapse T (signals (t # ts) (h, c)))
              = c\<lparr>effects := effects c @ startEffects c @ stopEffects c\<rparr>
            \<and> timers (fst (elapse T (signals (t # ts) (h, c)))) = []"
    if "last (t # ts) + ?d \<le> T"
    unfolding run timer_elapses(1) [OF pending that]
    using idle(1) by (simp add: timerCallback_def Let_def stopEffects_def)
  have waiting: "effects (snd (elapse T (signals (t # ts) (h, c)))) = effects c @ startEffects c
            \<and> handleTruthy (timeout (snd (elapse T (signals (t # ts) (h, c)))))"
    if "T < last (t # ts) + ?d"
    unfolding run timer_elapses(2) [OF pending that]
    using k' by simp
  have unused: "scrollDetect (h0, c0) = (h0, c0)"
    if "\<not> onScrollStart (props c0) \<and> \<not> onScrollStop (props c0)"
    using that by (simp add: scrollDetect_def)
  show ?thesis
    using fired waiting unused by blast
qed

theorem burst_fires_one_start_and_one_stop_witness:
  "effects (snd (elapse 220 (signals [10, 50, 120] (idleHost, detecting))))
     = [OnScrollStart (scrollValues detecting), OnScrollStop (scrollValues detecting)]
   \<and> timers (fst (elapse 220 (signals [10, 50, 120] (idleHost, detecting)))) = []
   \<and> effects (snd (elapse 219 (signals [10, 50, 120] (idleHost, detecting))))
     = [OnScrollStart (scrollValues detecting)]"
proof -
  have cfg: "onScrollStart (props detecting) \<or> onScrollStop (props detecting)"
    by (simp add: detecting_def)
  have idle: "timeout detecting = None" "timers idleHost = []"
    by (simp_all add: detecting_def idleHost_def demo_defs)
  have handles: "0 < nextHandle idleHost"
    by (simp add: idleHost_def)
  have burst: "now idleHost \<le> 10"
    "close_together (scrollDetectionThreshold (props detecting)) [10, 50, 120]"
    by (simp_all add: idleHost_def detecting_def demo_defs)
  have vals: "scrollDetectionThreshold (props detecting) = 100" "effects detecting = []"
    "startEffects detecting = [OnScrollStart (scrollValues detecting)]"
    "stopEffects detecting = [OnScrollStop (scrollValues detecting)]"
    by (simp_all add: startEffects_def stopEffects_def) (simp_all add: detecting_def demo_defs)
  note facts = burst_fires_one_start_and_one_stop [OF cfg idle handles burst]
  have fired: "snd (elapse 220 (signals [10, 50, 120] (idleHost, detecting)))
                 = detecting\<lparr>effects := effects detecting @ startEffects detecting @ stopEffects detecting\<rparr>
               \<and> timers (fst (elapse 220 (signals [10, 50, 120] (idleHost, detecting)))) = []"
    using facts [where T = 220, THEN conjunct1] by (simp add: vals)
  have waiting: "effects (snd (elapse 219 (signals [10, 50, 120] (idleHost, detecting))))
                 = effects detecting @ startEffects detecting"
    using facts [where T = 219, THEN conjunct2, THEN conjunct1] by (simp add: vals)
  show ?thesis
    using fired waiting by (simp add: vals)
qed

end
